theory Spec2Isabelle
  imports Complex_Main "HOL-Library.Sublist"
begin

section \<open>git-sizer: the command-line boundary and the repository opener\<close>

text \<open>
  The development embeds \<^verbatim>\<open>git-sizer.go\<close> (package main) and \<^verbatim>\<open>git/git.go\<close>
  (package git). Go's multiple return values \<^verbatim>\<open>(x, err)\<close> are pairs or sums, a nil
  error is \<open>None\<close>, and everything a function prints or starts is an entry of an
  event list that the function returns next to its result.
\<close>

subsection \<open>Errors and events\<close>

text \<open>
  One constructor per error the two files build (\<^verbatim>\<open>fmt.Errorf\<close>, \<^verbatim>\<open>errors.New\<close>) or
  receive from a library. \<open>ExternalError\<close> carries the text of an error that comes
  from outside (the operating system, a child process, the scanner).
\<close>

datatype error =
    ErrHelp
  | UnknownFlag string
  | InvalidArgument string string error
  | ParseBoolSyntax string
  | ParseUintError string
  | RegexpCompileError string
  | InvalidRegexp string
  | InvalidNameStyle string
  | JSONVersionError
  | CpuprofileError error
  | ExcessArguments
  | CouldntOpenRepository error
  | ErrorScanningRepository error
  | CouldNotConvertToJSON error
  | GitNotFound error
  | CouldNotRun string string
  | RevParseFailed string
  | CouldNotRunGitPathShallow error
  | ShallowClone
  | ExternalError string
  | NilPointerPanic

datatype stream = Stdout | Stderr

datatype fmt_arg = S string | E error

text \<open>
  \<open>Fprintf s f as\<close> is a call \<^verbatim>\<open>fmt.Fprintf(s, f, as...)\<close> (\<^verbatim>\<open>fmt.Printf\<close> is the
  stream \<open>Stdout\<close>); \<open>WriteString\<close> is \<^verbatim>\<open>io.WriteString\<close>; \<open>PrintUsage\<close> is
  \<^verbatim>\<open>fmt.Print(Usage)\<close>. The other events mark the calls that touch the file system,
  the profiler, the repository and the scanner.
\<close>

datatype event =
    Fprintf stream string "fmt_arg list"
  | WriteString stream string
  | PrintUsage
  | CreateFile string
  | StartCPUProfile
  | StopCPUProfile
  | NewRepositoryCall string
  | RepositoryClose
  | ScanRepositoryCall

subsection \<open>Package git: reference filters\<close>

type_synonym ReferenceFilter = "string \<Rightarrow> bool"

datatype Polarity = Include | Exclude

text \<open>
  Modelled from the spec: \<^verbatim>\<open>Polarity.Inverted\<close> is not among the sources; the comment at
  its call site ("invert the polarity") and the two polarities of the spec
  (\<open>polarity \<in> {include, exclude}\<close>) give the swap.
\<close>

definition Inverted :: "Polarity \<Rightarrow> Polarity" where
  "Inverted p = (case p of Include \<Rightarrow> Exclude | Exclude \<Rightarrow> Include)"

text \<open>
  Modelled from the spec: \<^verbatim>\<open>git.IncludeExcludeFilter\<close> is not among the sources. The spec
  calls it an ordered rule list, each rule a polarity and a pattern; \<^verbatim>\<open>Include\<close> and
  \<^verbatim>\<open>Exclude\<close> add a rule at the end of the list.
\<close>

type_synonym IncludeExcludeFilter = "(Polarity \<times> ReferenceFilter) list"

text \<open>
  Modelled from the spec: \<^verbatim>\<open>IncludeExcludeFilter.Include\<close> (absent) adds an include rule
  as the last rule.
\<close>

definition ief_Include :: "IncludeExcludeFilter \<Rightarrow> ReferenceFilter \<Rightarrow> IncludeExcludeFilter" where
  "ief_Include ief f = ief @ [(Include, f)]"

text \<open>
  Modelled from the spec: \<^verbatim>\<open>IncludeExcludeFilter.Exclude\<close> (absent) adds an exclude rule
  as the last rule.
\<close>

definition ief_Exclude :: "IncludeExcludeFilter \<Rightarrow> ReferenceFilter \<Rightarrow> IncludeExcludeFilter" where
  "ief_Exclude ief f = ief @ [(Exclude, f)]"

text \<open>
  Modelled from the spec: \<^verbatim>\<open>IncludeExcludeFilter.Filter\<close> is not among the sources. "The
  last rule that matches wins; if no rule matches, the reference is excluded by
  default." The rules are tried from the newest to the oldest.
\<close>

fun Filter_rev :: "(Polarity \<times> ReferenceFilter) list \<Rightarrow> string \<Rightarrow> bool" where
  "Filter_rev [] refname = False"
| "Filter_rev ((p, f) # older) refname =
     (if f refname then p = Include else Filter_rev older refname)"

text \<open>
  Modelled from the spec: \<^verbatim>\<open>IncludeExcludeFilter.Filter\<close> (absent), the search above
  started at the last rule.
\<close>

definition ief_Filter :: "IncludeExcludeFilter \<Rightarrow> ReferenceFilter" where
  "ief_Filter ief refname = Filter_rev (rev ief) refname"

text \<open>
  Modelled from the spec: \<^verbatim>\<open>git.PrefixFilter\<close> is not among the sources. "A literal
  prefix (must match on a path-segment boundary, so \<^verbatim>\<open>refs/foo\<close> matches \<^verbatim>\<open>refs/foo\<close> and
  \<^verbatim>\<open>refs/foo/bar\<close> but not \<^verbatim>\<open>refs/foobar\<close>)": the name starts with the prefix, and the
  prefix ends on a boundary between the segments of the name: the prefix itself ends
  with a slash, or the name ends there or goes on with a slash.
\<close>

definition PrefixFilter :: "string \<Rightarrow> ReferenceFilter" where
  "PrefixFilter pfx refname =
     (prefix pfx refname \<and>
      ((pfx \<noteq> [] \<and> last pfx = CHR ''/'')
       \<or> length refname = length pfx \<or> refname ! length pfx = CHR ''/''))"

text \<open>
  Modelled from the spec: \<^verbatim>\<open>git.RegexpFilter\<close> is not among the sources. "A full-string
  regular expression", whose pattern may fail to compile. The regular-expression
  engine is a parameter: \<open>compile p\<close> is \<open>None\<close> when \<open>p\<close> does not compile, and
  otherwise the predicate that holds of the names \<open>p\<close> matches in full.
\<close>

definition RegexpFilter ::
  "(string \<Rightarrow> ReferenceFilter option) \<Rightarrow> string \<Rightarrow> error + ReferenceFilter" where
  "RegexpFilter compile pat =
     (case compile pat of
        None \<Rightarrow> Inl (RegexpCompileError pat)
      | Some matches \<Rightarrow> Inr matches)"

subsection \<open>The environment of a run\<close>

text \<open>\<^verbatim>\<open>git.Repository\<close>, as \<^verbatim>\<open>git/git.go\<close> declares it.\<close>

record Repository =
  path :: string
  gitBin :: string

text \<open>
  What \<^verbatim>\<open>cmd.Output()\<close> can fail with in \<^verbatim>\<open>GitDir\<close>: the type switch there tells an
  \<^verbatim>\<open>*exec.Error\<close> (with its \<^verbatim>\<open>Err\<close>), an \<^verbatim>\<open>*exec.ExitError\<close> (with its \<^verbatim>\<open>Stderr\<close>) and any
  other error apart.
\<close>

datatype cmd_error = ExecError string | ExitError string | OtherCmdError error

text \<open>
  Modelled from the spec: \<^verbatim>\<open>sizes.NameStyle\<close> is not among the sources; the spec names
  the three styles \<^verbatim>\<open>none\<close>, \<^verbatim>\<open>hash\<close> and \<^verbatim>\<open>full\<close>, and the source the constant
  \<^verbatim>\<open>NameStyleFull\<close>.
\<close>

datatype NameStyle = NameStyleNone | NameStyleHash | NameStyleFull

text \<open>
  The outcomes of the library calls and of the parts of the repository that are not
  among the sources. \<open>'h\<close> is \<^verbatim>\<open>sizes.HistorySize\<close>.
  \<^item> \<open>regexp_Compile\<close>: the regular-expression engine behind \<^verbatim>\<open>git.RegexpFilter\<close>.
  \<^item> \<open>strconv_ParseUint\<close>: the number a \<^verbatim>\<open>uint\<close> flag reads, \<open>None\<close> on a syntax or range
    error.
  \<^item> \<open>threshold_off\<close>: what a threshold switch (\<^verbatim>\<open>--verbose\<close>, \<^verbatim>\<open>--critical\<close>) stores when it
    is given a false value, from the threshold before; the spec does not say.
  \<^item> \<open>Isatty\<close>: \<^verbatim>\<open>isatty.Isatty(os.Stderr.Fd())\<close>.
  \<^item> \<open>os_Create\<close>, \<open>os_Lstat\<close>: the error of the call, \<open>None\<close> on success.
  \<^item> \<open>findGitBin\<close>: the \<^verbatim>\<open>git\<close> executable, or why there is none.
  \<^item> \<open>exec_git_dir gitbin path\<close>: the output of
    \<^verbatim>\<open>gitbin -C path rev-parse --git-dir\<close>.
  \<^item> \<open>exec_git_path_shallow gitbin gitdir\<close>: the output of
    \<^verbatim>\<open>gitbin rev-parse --git-path shallow\<close> run in \<open>gitdir\<close>.
  \<^item> \<open>filepath_Join\<close>: \<^verbatim>\<open>filepath.Join\<close> of two elements.
  \<^item> \<open>ScanRepositoryUsingGraph\<close>: the scanner, as a function of the answers of the
    reference filter: the reference names it asks the filter about, in order, and its
    result.
  \<^item> \<open>json_MarshalIndent\<close>, \<open>HistorySize_JSON\<close>, \<open>TableString\<close>: the three renderings.
  \<^item> \<open>ReleaseVersion\<close>, \<open>BuildVersion\<close>: the two package variables.
\<close>

record 'h world =
  regexp_Compile :: "string \<Rightarrow> ReferenceFilter option"
  strconv_ParseUint :: "string \<Rightarrow> nat option"
  threshold_off :: "nat \<Rightarrow> nat"
  Isatty :: "error + bool"
  os_Create :: "string \<Rightarrow> error option"
  os_Lstat :: "string \<Rightarrow> error option"
  findGitBin :: "error + string"
  exec_git_dir :: "string \<Rightarrow> string \<Rightarrow> cmd_error + string"
  exec_git_path_shallow :: "string \<Rightarrow> string \<Rightarrow> error + string"
  filepath_Join :: "string \<Rightarrow> string \<Rightarrow> string"
  ScanRepositoryUsingGraph ::
    "Repository \<Rightarrow> ReferenceFilter \<Rightarrow> NameStyle \<Rightarrow> bool \<Rightarrow> string list \<times> (error + 'h)"
  json_MarshalIndent :: "'h \<Rightarrow> error + string"
  HistorySize_JSON :: "'h \<Rightarrow> nat \<Rightarrow> NameStyle \<Rightarrow> error + string"
  TableString :: "'h \<Rightarrow> nat \<Rightarrow> NameStyle \<Rightarrow> string"
  ReleaseVersion :: string
  BuildVersion :: string

subsection \<open>Package git: opening the repository (git/git.go)\<close>

text \<open>\<^verbatim>\<open>filepath.IsAbs\<close> on a Unix path.\<close>

definition filepath_IsAbs :: "string \<Rightarrow> bool" where
  "filepath_IsAbs p = prefix ''/'' p"

text \<open>
  \<^verbatim>\<open>bytes.TrimSpace\<close> removes the leading and the trailing white space "as defined by
  Unicode" from a UTF-8 byte string. \<open>unicode_IsSpace\<close> lists the UTF-8 encodings of the
  runes of \<^verbatim>\<open>unicode.IsSpace\<close>: the six ASCII ones, U+0085, U+00A0, U+1680, U+2000 to
  U+200A, U+2028, U+2029, U+202F, U+205F and U+3000. A byte that starts no valid
  encoding of such a rune (a lone continuation byte, say) is no white space and stops
  the trimming, as the rune error does in Go.
\<close>

definition unicode_IsSpace :: "string list" where
  "unicode_IsSpace =
     [[CHR 0x09], [CHR 0x0A], [CHR 0x0B], [CHR 0x0C], [CHR 0x0D], [CHR 0x20],
      [CHR 0xC2, CHR 0x85], [CHR 0xC2, CHR 0xA0],
      [CHR 0xE1, CHR 0x9A, CHR 0x80],
      [CHR 0xE2, CHR 0x80, CHR 0x80], [CHR 0xE2, CHR 0x80, CHR 0x81],
      [CHR 0xE2, CHR 0x80, CHR 0x82], [CHR 0xE2, CHR 0x80, CHR 0x83],
      [CHR 0xE2, CHR 0x80, CHR 0x84], [CHR 0xE2, CHR 0x80, CHR 0x85],
      [CHR 0xE2, CHR 0x80, CHR 0x86], [CHR 0xE2, CHR 0x80, CHR 0x87],
      [CHR 0xE2, CHR 0x80, CHR 0x88], [CHR 0xE2, CHR 0x80, CHR 0x89],
      [CHR 0xE2, CHR 0x80, CHR 0x8A],
      [CHR 0xE2, CHR 0x80, CHR 0xA8], [CHR 0xE2, CHR 0x80, CHR 0xA9],
      [CHR 0xE2, CHR 0x80, CHR 0xAF], [CHR 0xE2, CHR 0x81, CHR 0x9F],
      [CHR 0xE3, CHR 0x80, CHR 0x80]]"

text \<open>
  \<^verbatim>\<open>bytes.TrimLeftFunc\<close>, for a predicate on runes given by the encodings of the runes it
  holds of: the string without its longest beginning made of such runes.
  \<^verbatim>\<open>bytes.TrimRightFunc\<close> is the same from the end.
\<close>

function TrimLeftFunc :: "string list \<Rightarrow> string \<Rightarrow> string" where
  "TrimLeftFunc runes s =
     (case find (\<lambda>q. q \<noteq> [] \<and> prefix q s) runes of
        None \<Rightarrow> s
      | Some q \<Rightarrow> TrimLeftFunc runes (drop (length q) s))"
  by pat_completeness auto
termination
proof (relation "measure (\<lambda>(runes, s). length s)")
  show "wf (measure (\<lambda>(runes, s). length s))" by simp
next
  fix runes :: "string list" and s q :: string
  assume "find (\<lambda>q. q \<noteq> [] \<and> prefix q s) runes = Some q"
  then have "q \<noteq> []" "prefix q s" by (auto simp: find_Some_iff)
  then have "length (drop (length q) s) < length s"
    by (cases q; cases s) auto
  then show "((runes, drop (length q) s), (runes, s)) \<in> measure (\<lambda>(runes, s). length s)"
    by simp
qed

declare TrimLeftFunc.simps [simp del]

definition TrimRightFunc :: "string list \<Rightarrow> string \<Rightarrow> string" where
  "TrimRightFunc runes s = rev (TrimLeftFunc (map rev runes) (rev s))"

definition TrimSpace :: "string \<Rightarrow> string" where
  "TrimSpace s = TrimRightFunc unicode_IsSpace (TrimLeftFunc unicode_IsSpace s)"

definition smartJoin :: "'h world \<Rightarrow> string \<Rightarrow> string \<Rightarrow> string" where
  "smartJoin w pth relPath =
     (if filepath_IsAbs relPath then relPath else filepath_Join w pth relPath)"

definition GitDir :: "'h world \<Rightarrow> string \<Rightarrow> string \<Rightarrow> error + string" where
  "GitDir w gitbin pth =
     (case exec_git_dir w gitbin pth of
        Inl (ExecError e) \<Rightarrow> Inl (CouldNotRun gitbin e)
      | Inl (ExitError stderr) \<Rightarrow> Inl (RevParseFailed stderr)
      | Inl (OtherCmdError err) \<Rightarrow> Inl err
      | Inr out \<Rightarrow> Inr (smartJoin w pth (TrimSpace out)))"

definition IsShallow :: "'h world \<Rightarrow> string \<Rightarrow> string \<Rightarrow> bool \<times> error option" where
  "IsShallow w gitbin gitdir =
     (case exec_git_path_shallow w gitbin gitdir of
        Inl err \<Rightarrow> (False, Some (CouldNotRunGitPathShallow err))
      | Inr out \<Rightarrow>
          (let shallow = smartJoin w gitdir (TrimSpace out) in
           case os_Lstat w shallow of
             None \<Rightarrow> (True, Some ShallowClone)
           | Some err \<Rightarrow> (False, None)))"

definition NewRepository :: "'h world \<Rightarrow> string \<Rightarrow> Repository option \<times> error option" where
  "NewRepository w pth =
     (case findGitBin w of
        Inl err \<Rightarrow> (None, Some (GitNotFound err))
      | Inr gitBin' \<Rightarrow>
          (case GitDir w gitBin' pth of
             Inl err \<Rightarrow> (None, Some err)
           | Inr gitDir \<Rightarrow>
               (case IsShallow w gitBin' gitDir of
                  (shallow, err) \<Rightarrow>
                    if shallow then (None, err)
                    else (Some \<lparr>path = gitDir, gitBin = gitBin'\<rparr>, None))))"

subsection \<open>Package main: the flag values (git-sizer.go)\<close>

text \<open>
  \<^verbatim>\<open>strconv.ParseBool\<close>: the two lists of spellings of the Go library; any other string
  gives \<^verbatim>\<open>false\<close> and a syntax error.
\<close>

definition ParseBool :: "string \<Rightarrow> bool \<times> error option" where
  "ParseBool str =
     (if str \<in> set [''1'', ''t'', ''T'', ''TRUE'', ''true'', ''True''] then (True, None)
      else if str \<in> set [''0'', ''f'', ''F'', ''FALSE'', ''false'', ''False''] then (False, None)
      else (False, Some (ParseBoolSyntax str)))"

text \<open>
  \<^verbatim>\<open>NegatedBoolValue.Set\<close> stores the negation of what it parsed, also when the parse
  failed, and returns the parse error.
\<close>

definition NegatedBoolValue_Set :: "string \<Rightarrow> bool \<times> error option" where
  "NegatedBoolValue_Set s = (case ParseBool s of (b, err) \<Rightarrow> (\<not> b, err))"

text \<open>
  \<^verbatim>\<open>filterValue\<close>: the pointer to the filter is the filter passed to \<open>filterValue_Set\<close> and
  returned by it.
\<close>

record filterValue =
  polarity :: Polarity
  pattern :: string
  regexp :: bool

definition filterValue_Set ::
  "'h world \<Rightarrow> filterValue \<Rightarrow> IncludeExcludeFilter \<Rightarrow> string \<Rightarrow> error + IncludeExcludeFilter" where
  "filterValue_Set w v flt s =
     (case (if pattern v \<noteq> [] then
              (case ParseBool s of
                 (b, Some err) \<Rightarrow> Inl err
               | (b, None) \<Rightarrow>
                   Inr (if \<not> b then Inverted (polarity v) else polarity v, pattern v))
            else Inr (polarity v, s)) of
        Inl err \<Rightarrow> Inl err
      | Inr (pol, pat) \<Rightarrow>
          (case (if regexp v then
                   (case RegexpFilter (regexp_Compile w) pat of
                      Inl err \<Rightarrow> Inl (InvalidRegexp s)
                    | Inr f \<Rightarrow> Inr f)
                 else Inr (PrefixFilter pat)) of
             Inl err \<Rightarrow> Inl err
           | Inr f \<Rightarrow>
               (case pol of
                  Include \<Rightarrow> Inr (ief_Include flt f)
                | Exclude \<Rightarrow> Inr (ief_Exclude flt f))))"

text \<open>
  Modelled from the spec: \<^verbatim>\<open>sizes.Threshold\<close>, \<^verbatim>\<open>sizes.NewThresholdFlagValue\<close> and the
  \<^verbatim>\<open>Set\<close> of \<^verbatim>\<open>sizes.NameStyle\<close> are not among the sources. The threshold is "a
  non-negative integer; 0 = verbose/all, a high constant = critical only":
  \<^verbatim>\<open>--threshold\<close> reads a number, and a threshold switch built from a constant stores that
  constant when it is set to a true value. The name style is one of \<^verbatim>\<open>none\<close>, \<^verbatim>\<open>hash\<close>,
  \<^verbatim>\<open>full\<close>.
\<close>

type_synonym Threshold = nat

text \<open>
  Modelled from the spec: \<^verbatim>\<open>Threshold.Set\<close> (absent), the value of \<^verbatim>\<open>--threshold\<close>: a
  non-negative integer.
\<close>

definition Threshold_Set :: "'h world \<Rightarrow> string \<Rightarrow> error + Threshold" where
  "Threshold_Set w s =
     (case strconv_ParseUint w s of
        None \<Rightarrow> Inl (ParseUintError s)
      | Some n \<Rightarrow> Inr n)"

text \<open>
  Modelled from the spec: the \<^verbatim>\<open>Set\<close> of the value that \<^verbatim>\<open>sizes.NewThresholdFlagValue\<close>
  (absent) builds from a constant: a boolean switch that stores the constant in the
  threshold when it is set to a true value (0 for "verbose/all", the high constant for
  "critical only").
\<close>

definition ThresholdFlagValue_Set ::
  "'h world \<Rightarrow> Threshold \<Rightarrow> Threshold \<Rightarrow> string \<Rightarrow> error + Threshold" where
  "ThresholdFlagValue_Set w val current s =
     (case ParseBool s of
        (b, Some err) \<Rightarrow> Inl err
      | (b, None) \<Rightarrow> Inr (if b then val else threshold_off w current))"

text \<open>
  Modelled from the spec: \<^verbatim>\<open>NameStyle.Set\<close> (absent), the value of \<^verbatim>\<open>--names\<close>: one of
  \<^verbatim>\<open>none\<close>, \<^verbatim>\<open>hash\<close>, \<^verbatim>\<open>full\<close>.
\<close>

definition NameStyle_Set :: "string \<Rightarrow> error + NameStyle" where
  "NameStyle_Set s =
     (if s = ''none'' then Inr NameStyleNone
      else if s = ''hash'' then Inr NameStyleHash
      else if s = ''full'' then Inr NameStyleFull
      else Inl (InvalidNameStyle s))"

subsection \<open>Package main: the flag set of \<^verbatim>\<open>mainImplementation\<close>\<close>

text \<open>
  The local variables of \<^verbatim>\<open>mainImplementation\<close> that the flags write, and \<open>args\<close>, the
  positional arguments \<^verbatim>\<open>flags.Args()\<close>.
\<close>

record flagvars =
  nameStyle :: NameStyle
  cpuprofile :: string
  jsonOutput :: bool
  jsonVersion :: nat
  threshold :: Threshold
  progress :: bool
  version :: bool
  filter_v :: IncludeExcludeFilter
  showRefs :: bool
  args :: "string list"

text \<open>
  The values registered with the flag set, one constructor per kind of
  \<^verbatim>\<open>flags.Var\<close>, \<^verbatim>\<open>VarP\<close>, \<^verbatim>\<open>VarPF\<close>, \<^verbatim>\<open>BoolVar\<close>, \<^verbatim>\<open>UintVar\<close> and \<^verbatim>\<open>StringVar\<close> call, and the table
  of the registrations in the order of the source.
\<close>

datatype flag_Value =
    FilterValue filterValue
  | ThresholdFlagValue Threshold
  | ThresholdVar
  | NameStyleVar
  | JsonOutputVar
  | JsonVersionVar
  | ProgressVar
  | ShowRefsVar
  | VersionVar
  | NegatedProgress
  | CpuprofileVar

definition flag_table :: "(string \<times> flag_Value) list" where
  "flag_table =
    [(''include'', FilterValue \<lparr>polarity = Include, pattern = [], regexp = False\<rparr>),
     (''include-regexp'', FilterValue \<lparr>polarity = Include, pattern = [], regexp = True\<rparr>),
     (''exclude'', FilterValue \<lparr>polarity = Exclude, pattern = [], regexp = False\<rparr>),
     (''exclude-regexp'', FilterValue \<lparr>polarity = Exclude, pattern = [], regexp = True\<rparr>),
     (''branches'', FilterValue \<lparr>polarity = Include, pattern = ''refs/heads'', regexp = False\<rparr>),
     (''no-branches'', FilterValue \<lparr>polarity = Exclude, pattern = ''refs/heads'', regexp = False\<rparr>),
     (''tags'', FilterValue \<lparr>polarity = Include, pattern = ''refs/tags'', regexp = False\<rparr>),
     (''no-tags'', FilterValue \<lparr>polarity = Exclude, pattern = ''refs/tags'', regexp = False\<rparr>),
     (''remotes'', FilterValue \<lparr>polarity = Include, pattern = ''refs/remotes'', regexp = False\<rparr>),
     (''no-remotes'', FilterValue \<lparr>polarity = Exclude, pattern = ''refs/remotes'', regexp = False\<rparr>),
     (''notes'', FilterValue \<lparr>polarity = Include, pattern = ''refs/notes'', regexp = False\<rparr>),
     (''no-notes'', FilterValue \<lparr>polarity = Exclude, pattern = ''refs/notes'', regexp = False\<rparr>),
     (''stash'', FilterValue \<lparr>polarity = Include, pattern = ''refs/stash'', regexp = True\<rparr>),
     (''no-stash'', FilterValue \<lparr>polarity = Exclude, pattern = ''refs/stash'', regexp = True\<rparr>),
     (''verbose'', ThresholdFlagValue 0),
     (''threshold'', ThresholdVar),
     (''critical'', ThresholdFlagValue 30),
     (''names'', NameStyleVar),
     (''json'', JsonOutputVar),
     (''json-version'', JsonVersionVar),
     (''progress'', ProgressVar),
     (''show-refs'', ShowRefsVar),
     (''version'', VersionVar),
     (''no-progress'', NegatedProgress),
     (''cpuprofile'', CpuprofileVar)]"

text \<open>
  \<open>flag_Set\<close> is the \<^verbatim>\<open>Set\<close> method of a registered value, applied to the variables. The
  values of pflag itself are its \<^verbatim>\<open>boolValue\<close> (\<^verbatim>\<open>strconv.ParseBool\<close>), \<^verbatim>\<open>uintValue\<close>
  (\<^verbatim>\<open>strconv.ParseUint\<close>) and \<^verbatim>\<open>stringValue\<close>.
\<close>

definition boolValue_Set :: "string \<Rightarrow> error + bool" where
  "boolValue_Set s = (case ParseBool s of (b, Some err) \<Rightarrow> Inl err | (b, None) \<Rightarrow> Inr b)"

definition flag_Set :: "'h world \<Rightarrow> flag_Value \<Rightarrow> string \<Rightarrow> flagvars \<Rightarrow> error + flagvars" where
  "flag_Set w fv s st =
     (case fv of
        FilterValue v \<Rightarrow>
          (case filterValue_Set w v (filter_v st) s of
             Inl err \<Rightarrow> Inl err
           | Inr flt \<Rightarrow> Inr (st\<lparr>filter_v := flt\<rparr>))
      | ThresholdFlagValue val \<Rightarrow>
          (case ThresholdFlagValue_Set w val (threshold st) s of
             Inl err \<Rightarrow> Inl err
           | Inr t \<Rightarrow> Inr (st\<lparr>threshold := t\<rparr>))
      | ThresholdVar \<Rightarrow>
          (case Threshold_Set w s of
             Inl err \<Rightarrow> Inl err
           | Inr t \<Rightarrow> Inr (st\<lparr>threshold := t\<rparr>))
      | NameStyleVar \<Rightarrow>
          (case NameStyle_Set s of
             Inl err \<Rightarrow> Inl err
           | Inr n \<Rightarrow> Inr (st\<lparr>nameStyle := n\<rparr>))
      | JsonOutputVar \<Rightarrow>
          (case boolValue_Set s of
             Inl err \<Rightarrow> Inl err
           | Inr b \<Rightarrow> Inr (st\<lparr>jsonOutput := b\<rparr>))
      | JsonVersionVar \<Rightarrow>
          (case strconv_ParseUint w s of
             None \<Rightarrow> Inl (ParseUintError s)
           | Some n \<Rightarrow> Inr (st\<lparr>jsonVersion := n\<rparr>))
      | ProgressVar \<Rightarrow>
          (case boolValue_Set s of
             Inl err \<Rightarrow> Inl err
           | Inr b \<Rightarrow> Inr (st\<lparr>progress := b\<rparr>))
      | ShowRefsVar \<Rightarrow>
          (case boolValue_Set s of
             Inl err \<Rightarrow> Inl err
           | Inr b \<Rightarrow> Inr (st\<lparr>showRefs := b\<rparr>))
      | VersionVar \<Rightarrow>
          (case boolValue_Set s of
             Inl err \<Rightarrow> Inl err
           | Inr b \<Rightarrow> Inr (st\<lparr>version := b\<rparr>))
      | NegatedProgress \<Rightarrow>
          (case NegatedBoolValue_Set s of
             (b, Some err) \<Rightarrow> Inl err
           | (b, None) \<Rightarrow> Inr (st\<lparr>progress := b\<rparr>))
      | CpuprofileVar \<Rightarrow> Inr (st\<lparr>cpuprofile := s\<rparr>))"

text \<open>
  The argument list as pflag reads it. \<open>Opt name value\<close> is one occurrence of the option
  \<^verbatim>\<open>--name\<close> with the string handed to its \<^verbatim>\<open>Set\<close>: the text after \<^verbatim>\<open>=\<close>, the next argument,
  or the option's \<^verbatim>\<open>NoOptDefVal\<close> (\<^verbatim>\<open>"true"\<close> for every switch of the source) when the
  option stands alone; \<^verbatim>\<open>-v\<close> and \<^verbatim>\<open>-j\<close> are \<^verbatim>\<open>--verbose\<close> and \<^verbatim>\<open>--json\<close>. \<open>Positional s\<close> is an
  argument that is no option. \<^verbatim>\<open>flags.Parse\<close> works through the list in order, stops at
  the first error, answers an option that is not registered with \<^verbatim>\<open>ErrHelp\<close> when it is
  \<^verbatim>\<open>--help\<close> and with an error otherwise, and wraps the error of a \<^verbatim>\<open>Set\<close> with the value
  and the name of the option.
\<close>

datatype cli_arg = Opt string string | Positional string

fun Parse :: "'h world \<Rightarrow> cli_arg list \<Rightarrow> flagvars \<Rightarrow> error + flagvars" where
  "Parse w [] st = Inr st"
| "Parse w (Positional s # rest) st = Parse w rest (st\<lparr>args := args st @ [s]\<rparr>)"
| "Parse w (Opt name val # rest) st =
     (case map_of flag_table name of
        None \<Rightarrow> if name = ''help'' then Inl ErrHelp else Inl (UnknownFlag name)
      | Some fv \<Rightarrow>
          (case flag_Set w fv val st of
             Inl err \<Rightarrow> Inl (InvalidArgument val name err)
           | Inr st' \<Rightarrow> Parse w rest st'))"

text \<open>
  The variables as declared, with the defaults the registrations give them; an error of
  \<^verbatim>\<open>isatty.Isatty\<close> counts as "no terminal".
\<close>

definition initial_flagvars :: "'h world \<Rightarrow> flagvars" where
  "initial_flagvars w =
     \<lparr>nameStyle = NameStyleFull, cpuprofile = [], jsonOutput = False, jsonVersion = 1,
      threshold = 1,
      progress = (case Isatty w of Inl err \<Rightarrow> False | Inr atty \<Rightarrow> atty),
      version = False, filter_v = [], showRefs = False, args = []\<rparr>"

subsection \<open>Package main: \<^verbatim>\<open>mainImplementation\<close> and \<^verbatim>\<open>main\<close>\<close>

text \<open>
  A reference filter that may print: its answer and what it writes. \<open>quietFilter\<close> is a
  filter that prints nothing; \<open>showRefsFilter\<close> is the closure that \<^verbatim>\<open>--show-refs\<close> puts
  around the filter.
\<close>

definition quietFilter :: "ReferenceFilter \<Rightarrow> string \<Rightarrow> bool \<times> event list" where
  "quietFilter f refname = (f refname, [])"

definition showRefsFilter :: "ReferenceFilter \<Rightarrow> string \<Rightarrow> bool \<times> event list" where
  "showRefsFilter oldRefFilter refname =
     (let b = oldRefFilter refname in
      if b then (b, [Fprintf Stderr ''+ %s\<newline>'' [S refname]])
      else (b, [Fprintf Stderr ''  %s\<newline>'' [S refname]]))"

text \<open>
  \<^verbatim>\<open>mainImplementation\<close> in four consecutive parts: the output of a finished scan (from
  \<^verbatim>\<open>if jsonOutput\<close> to the end), the scan with its reference filter (from
  \<^verbatim>\<open>var refFilter\<close>), the way to the open repository (from \<^verbatim>\<open>if version\<close>), and
  everything after \<^verbatim>\<open>flags.Parse\<close>. Each returns the events of its part and the error
  that \<^verbatim>\<open>mainImplementation\<close> returns; a deferred call (\<^verbatim>\<open>repo.Close\<close>,
  \<^verbatim>\<open>pprof.StopCPUProfile\<close>) is the last event of the part that defers it. The scanner
  receives the answers of the filter; what the filter prints for the names the scanner
  asks about follows the call. \<^verbatim>\<open>git.NewRepository\<close> never returns a nil repository
  with a nil error (lemma \<open>NewRepository_result\<close> below); the model gives that case,
  in which the deferred \<^verbatim>\<open>repo.Close\<close> would meet a nil pointer, the error
  \<open>NilPointerPanic\<close>. The source does not look at the error of
  \<^verbatim>\<open>pprof.StartCPUProfile\<close>, so the model has none.
\<close>

definition mainImplementation_output ::
  "'h world \<Rightarrow> flagvars \<Rightarrow> 'h \<Rightarrow> event list \<times> error option" where
  "mainImplementation_output w st historySize =
     (if jsonOutput st then
        (case (if jsonVersion st = 1 then Inr (json_MarshalIndent w historySize)
               else if jsonVersion st = 2 then
                 Inr (HistorySize_JSON w historySize (threshold st) (nameStyle st))
               else Inl JSONVersionError) of
           Inl err \<Rightarrow> ([], Some err)
         | Inr (Inl err) \<Rightarrow> ([], Some (CouldNotConvertToJSON err))
         | Inr (Inr j) \<Rightarrow> ([Fprintf Stdout ''%s\<newline>'' [S j]], None))
      else
        ([WriteString Stdout (TableString w historySize (threshold st) (nameStyle st))],
         None))"

definition mainImplementation_scan ::
  "'h world \<Rightarrow> flagvars \<Rightarrow> Repository \<Rightarrow> event list \<times> error option" where
  "mainImplementation_scan w st repo =
     (let (shown, refFilter) =
            (if showRefs st then
               ([Fprintf Stderr
                   ''References (included references marked with '+'):\<newline>'' []],
                showRefsFilter (ief_Filter (filter_v st)))
             else ([], quietFilter (ief_Filter (filter_v st))));
          (asked, result) =
            ScanRepositoryUsingGraph w repo (\<lambda>refname. fst (refFilter refname))
              (nameStyle st) (progress st);
          evs = shown @ [ScanRepositoryCall]
                  @ concat (map (\<lambda>refname. snd (refFilter refname)) asked)
      in case result of
           Inl err \<Rightarrow> (evs, Some (ErrorScanningRepository err))
         | Inr historySize \<Rightarrow>
             (case mainImplementation_output w st historySize of
                (out, r) \<Rightarrow> (evs @ out, r)))"

definition mainImplementation_open ::
  "'h world \<Rightarrow> flagvars \<Rightarrow> event list \<times> error option" where
  "mainImplementation_open w st =
     (if version st then
        (if ReleaseVersion w \<noteq> [] then
           ([Fprintf Stdout ''git-sizer release %s\<newline>'' [S (ReleaseVersion w)]], None)
         else
           ([Fprintf Stdout ''git-sizer build %s\<newline>'' [S (BuildVersion w)]], None))
      else if length (args st) \<noteq> 0 then ([], Some ExcessArguments)
      else
        (case NewRepository w ''.'' of
           (r, Some err) \<Rightarrow> ([NewRepositoryCall ''.''], Some (CouldntOpenRepository err))
         | (None, None) \<Rightarrow> ([NewRepositoryCall ''.''], Some NilPointerPanic)
         | (Some repo, None) \<Rightarrow>
             (case mainImplementation_scan w st repo of
                (evs, r) \<Rightarrow> (NewRepositoryCall ''.'' # evs @ [RepositoryClose], r))))"

definition mainImplementation_run ::
  "'h world \<Rightarrow> flagvars \<Rightarrow> event list \<times> error option" where
  "mainImplementation_run w st =
     (if jsonOutput st \<and> \<not> (jsonVersion st = 1 \<or> jsonVersion st = 2) then
        ([], Some JSONVersionError)
      else
        (case (if cpuprofile st \<noteq> [] then
                 (case os_Create w (cpuprofile st) of
                    Some err \<Rightarrow> Inl (CpuprofileError err)
                  | None \<Rightarrow>
                      Inr ([CreateFile (cpuprofile st), StartCPUProfile], [StopCPUProfile]))
               else Inr ([], [])) of
           Inl err \<Rightarrow> ([], Some err)
         | Inr (started, deferred) \<Rightarrow>
             (case mainImplementation_open w st of
                (evs, r) \<Rightarrow> (started @ evs @ deferred, r))))"

definition mainImplementation :: "'h world \<Rightarrow> cli_arg list \<Rightarrow> event list \<times> error option" where
  "mainImplementation w arguments =
     (case Parse w arguments (initial_flagvars w) of
        Inl err \<Rightarrow> if err = ErrHelp then ([PrintUsage], None) else ([], Some err)
      | Inr st \<Rightarrow> mainImplementation_run w st)"

text \<open>
  \<^verbatim>\<open>main\<close>: the events of the run and the exit status of the process (\<^verbatim>\<open>os.Exit(1)\<close> after
  the error line, 0 when \<^verbatim>\<open>main\<close> returns).
\<close>

definition main :: "'h world \<Rightarrow> cli_arg list \<Rightarrow> event list \<times> nat" where
  "main w arguments =
     (case mainImplementation w arguments of
        (evs, Some err) \<Rightarrow> (evs @ [Fprintf Stderr ''error: %s\<newline>'' [E err]], 1)
      | (evs, None) \<Rightarrow> (evs, 0))"

text \<open>
  Two readings of the events: whether an event writes to a stream, and whether it
  prints an error value. \<open>reaches_NewRepository\<close> holds of the variables with which
  \<^verbatim>\<open>mainImplementation\<close> gets as far as \<^verbatim>\<open>git.NewRepository\<close>.
\<close>

fun writes_to :: "stream \<Rightarrow> event \<Rightarrow> bool" where
  "writes_to s (Fprintf s' f as) = (s = s')"
| "writes_to s (WriteString s' x) = (s = s')"
| "writes_to s PrintUsage = (s = Stdout)"
| "writes_to s ev = False"

fun is_error_arg :: "fmt_arg \<Rightarrow> bool" where
  "is_error_arg (E err) = True"
| "is_error_arg (S x) = False"

fun prints_error :: "event \<Rightarrow> bool" where
  "prints_error (Fprintf s f as) = list_ex is_error_arg as"
| "prints_error ev = False"

definition reaches_NewRepository :: "'h world \<Rightarrow> flagvars \<Rightarrow> bool" where
  "reaches_NewRepository w st =
     (\<not> (jsonOutput st \<and> \<not> (jsonVersion st = 1 \<or> jsonVersion st = 2))
      \<and> (cpuprofile st = [] \<or> os_Create w (cpuprofile st) = None)
      \<and> \<not> version st \<and> length (args st) = 0)"

subsection \<open>Package sizes: the threshold of the report and the concern rating\<close>

text \<open>
  Modelled from the spec: the report surface (\<^verbatim>\<open>TableString\<close>, \<^verbatim>\<open>HistorySize.JSON\<close>) is not
  among the sources. "A report row is emitted only if its severity \<open>\<ge>\<close> the
  caller-supplied minimum threshold": the rows of a report, in their order, that reach
  the threshold.
\<close>

definition emitted_rows :: "Threshold \<Rightarrow> ('r \<Rightarrow> nat) \<Rightarrow> 'r list \<Rightarrow> 'r list" where
  "emitted_rows t severity rows = filter (\<lambda>r. t \<le> severity r) rows"

text \<open>
  Modelled from the spec: the Concern Engine is not among the sources. "Each metric has
  a fixed reasonable reference value; severity is \<open>floor(log_base(value / reasonable))\<close>
  clamped at 0, where \<open>base\<close> is a fixed constant shared across metrics." On integers:
  \<open>stars\<close> counts how often the reference value can be multiplied by the base without
  passing the value; the base and the table of reference values are parameters, since
  the spec leaves the constants open.
\<close>

function stars :: "nat \<Rightarrow> nat \<Rightarrow> nat \<Rightarrow> nat" where
  "stars base reasonable v =
     (if 2 \<le> base \<and> 0 < reasonable \<and> reasonable * base \<le> v
      then Suc (stars base (reasonable * base) v)
      else 0)"
  by pat_completeness auto
termination
proof (relation "measure (\<lambda>(base, reasonable, v). v - reasonable)")
  show "wf (measure (\<lambda>(base, reasonable, v). v - reasonable))" by simp
next
  fix base reasonable v :: nat
  assume a: "2 \<le> base \<and> 0 < reasonable \<and> reasonable * base \<le> v"
  then have "reasonable * 2 \<le> reasonable * base" by simp
  with a have "reasonable < reasonable * base" "reasonable * base \<le> v" by simp_all
  then have "v - reasonable * base < v - reasonable" by arith
  then show "((base, reasonable * base, v), (base, reasonable, v))
               \<in> measure (\<lambda>(base, reasonable, v). v - reasonable)"
    by simp
qed

text \<open>
  Modelled from the spec: \<^verbatim>\<open>Severity(metricName, value)\<close> of the Concern Engine (absent),
  the stars of the value against the reference value of the metric.
\<close>

definition Severity :: "nat \<Rightarrow> ('m \<Rightarrow> nat) \<Rightarrow> 'm \<Rightarrow> nat \<Rightarrow> nat" where
  "Severity base reasonable m v = stars base (reasonable m) v"

text \<open>
  Modelled from the spec: the same severity as the spec writes it, the floor of a
  logarithm of a quotient on the reals, clamped at 0.
\<close>

definition Severity_formula :: "nat \<Rightarrow> ('m \<Rightarrow> nat) \<Rightarrow> 'm \<Rightarrow> nat \<Rightarrow> nat" where
  "Severity_formula base reasonable m v =
     nat (max 0 \<lfloor>log (real base) (real v / real (reasonable m))\<rfloor>)"

subsection \<open>An example environment\<close>

text \<open>
  A small environment to run the definitions in: a \<^verbatim>\<open>git\<close> that finds the repository
  \<^verbatim>\<open>.git\<close>, no \<^verbatim>\<open>shallow\<close> file, a repository with two references, a regular-expression
  engine that knows literal patterns and rejects a parenthesis, and numbers in decimal
  digits. Its history size is the number of references the filter lets through.
\<close>

fun decimal_from :: "nat \<Rightarrow> string \<Rightarrow> nat option" where
  "decimal_from acc [] = Some acc"
| "decimal_from acc (c # cs) =
     (if c \<in> set ''0123456789'' then decimal_from (10 * acc + (of_char c - 48)) cs
      else None)"

definition decimal :: "string \<Rightarrow> nat option" where
  "decimal s = (if s = [] then None else decimal_from 0 s)"

definition example_world :: "nat world" where
  "example_world =
     \<lparr>regexp_Compile = (\<lambda>p. if CHR ''('' \<in> set p then None else Some (\<lambda>refname. refname = p)),
      strconv_ParseUint = decimal,
      threshold_off = (\<lambda>t. 1),
      Isatty = Inr False,
      os_Create = (\<lambda>name. None),
      os_Lstat = (\<lambda>name. Some (ExternalError ''no such file or directory'')),
      findGitBin = Inr ''/usr/bin/git'',
      exec_git_dir = (\<lambda>gitbin pth. Inr ''.git\<newline>''),
      exec_git_path_shallow = (\<lambda>gitbin gitdir. Inr ''shallow\<newline>''),
      filepath_Join = (\<lambda>a b. if a = ''.'' then b else a @ ''/'' @ b),
      ScanRepositoryUsingGraph =
        (\<lambda>repo refFilter names prog.
           ([''refs/heads/main'', ''refs/tags/v1''],
            Inr (length (filter refFilter [''refs/heads/main'', ''refs/tags/v1''])))),
      json_MarshalIndent = (\<lambda>h. Inr ''{}''),
      HistorySize_JSON = (\<lambda>h t names. Inr ''[]''),
      TableString = (\<lambda>h t names. ''table''),
      ReleaseVersion = [],
      BuildVersion = ''dev''\<rparr>"

text \<open>The same environment with a \<^verbatim>\<open>shallow\<close> file in the git directory.\<close>

definition shallow_world :: "nat world" where
  "shallow_world =
     example_world\<lparr>os_Lstat :=
       (\<lambda>name. if name = ''.git/shallow'' then None
                else Some (ExternalError ''no such file or directory''))\<rparr>"

text \<open>
  A shallow clone whose git directory has a name that ends with a space,
  \<^verbatim>\<open>/srv/repo.git\<close> followed by a space. \<^verbatim>\<open>git rev-parse --git-dir\<close> prints the directory
  as it is named; the \<^verbatim>\<open>shallow\<close> file is in it; and a command that is to run in
  \<^verbatim>\<open>/srv/repo.git\<close> without the space fails, since there is no such directory.
\<close>

definition trailing_space_world :: "nat world" where
  "trailing_space_world =
     example_world\<lparr>
       exec_git_dir := (\<lambda>gitbin pth. Inr ''/srv/repo.git \<newline>''),
       exec_git_path_shallow :=
         (\<lambda>gitbin gitdir.
            if gitdir = ''/srv/repo.git '' then Inr ''shallow\<newline>''
            else Inl (ExternalError ''chdir: no such file or directory'')),
       os_Lstat :=
         (\<lambda>name. if name = ''/srv/repo.git /shallow'' then None
                  else Some (ExternalError ''no such file or directory''))\<rparr>"

section \<open>Properties\<close>

subsection \<open>Auxiliary facts\<close>

text \<open>The reference filter: the rule that decides, and the prefix rule.\<close>

lemma Filter_rev_iff:
  "Filter_rev rs n = (\<exists>i < length rs. snd (rs ! i) n \<and> fst (rs ! i) = Include \<and> (\<forall>j < i. \<not> snd (rs ! j) n))"
proof (induction rs)
  case Nil
  then show ?case by simp
next
  case (Cons r rs)
  obtain p f where r: "r = (p, f)" by (cases r)
  show ?case
  proof (cases "f n")
    case True
    have "(\<exists>i < length (r # rs). snd ((r # rs) ! i) n \<and> fst ((r # rs) ! i) = Include \<and> (\<forall>j < i. \<not> snd ((r # rs) ! j) n)) = (p = Include)"
    proof
      assume "\<exists>i < length (r # rs). snd ((r # rs) ! i) n \<and> fst ((r # rs) ! i) = Include \<and> (\<forall>j < i. \<not> snd ((r # rs) ! j) n)"
      then obtain i where i: "i < length (r # rs)" "fst ((r # rs) ! i) = Include" "\<forall>j < i. \<not> snd ((r # rs) ! j) n"
        by blast
      have "i = 0"
      proof (rule ccontr)
        assume "i \<noteq> 0"
        then have "0 < i" by simp
        with i(3) have "\<not> snd ((r # rs) ! 0) n" by blast
        with True r show False by simp
      qed
      with i(2) r show "p = Include" by simp
    next
      assume "p = Include"
      with True r show "\<exists>i < length (r # rs). snd ((r # rs) ! i) n \<and> fst ((r # rs) ! i) = Include \<and> (\<forall>j < i. \<not> snd ((r # rs) ! j) n)"
        by (intro exI[of _ 0]) simp
    qed
    with True r show ?thesis by simp
  next
    case False
    have "(\<exists>i < length (r # rs). snd ((r # rs) ! i) n \<and> fst ((r # rs) ! i) = Include \<and> (\<forall>j < i. \<not> snd ((r # rs) ! j) n))
        = (\<exists>i < length rs. snd (rs ! i) n \<and> fst (rs ! i) = Include \<and> (\<forall>j < i. \<not> snd (rs ! j) n))"
      (is "?L = ?R")
    proof
      assume ?L
      then obtain i where i: "i < length (r # rs)" "snd ((r # rs) ! i) n" "fst ((r # rs) ! i) = Include" "\<forall>j < i. \<not> snd ((r # rs) ! j) n"
        by blast
      from i(2) False r have "i \<noteq> 0" by (cases i) auto
      then obtain k where k: "i = Suc k" by (cases i) auto
      have "\<forall>j < k. \<not> snd (rs ! j) n"
      proof (intro allI impI)
        fix j assume "j < k"
        then have "Suc j < i" using k by simp
        with i(4) have "\<not> snd ((r # rs) ! Suc j) n" by blast
        then show "\<not> snd (rs ! j) n" by simp
      qed
      with i k show ?R by (intro exI[of _ k]) simp
    next
      assume ?R
      then obtain k where k: "k < length rs" "snd (rs ! k) n" "fst (rs ! k) = Include" "\<forall>j < k. \<not> snd (rs ! j) n"
        by blast
      have "\<forall>j < Suc k. \<not> snd ((r # rs) ! j) n"
      proof (intro allI impI)
        fix j assume "j < Suc k"
        show "\<not> snd ((r # rs) ! j) n"
        proof (cases j)
          case 0
          with False r show ?thesis by simp
        next
          case (Suc m)
          with \<open>j < Suc k\<close> k(4) show ?thesis by simp
        qed
      qed
      with k show ?L by (intro exI[of _ "Suc k"]) simp
    qed
    with False r Cons.IH show ?thesis by simp
  qed
qed

lemma ief_Filter_iff:
  "ief_Filter ief n =
     (\<exists>i < length ief. snd (ief ! i) n \<and> fst (ief ! i) = Include \<and>
        (\<forall>j. i < j \<and> j < length ief \<longrightarrow> \<not> snd (ief ! j) n))"
  (is "?L = ?R")
proof
  assume ?L
  then obtain k where k: "k < length (rev ief)" "snd (rev ief ! k) n" "fst (rev ief ! k) = Include"
      "\<forall>j < k. \<not> snd (rev ief ! j) n"
    unfolding ief_Filter_def Filter_rev_iff by blast
  let ?i = "length ief - Suc k"
  from k(1) have lt: "k < length ief" by simp
  then have nth: "rev ief ! k = ief ! ?i" by (simp add: rev_nth)
  have later: "\<forall>j. ?i < j \<and> j < length ief \<longrightarrow> \<not> snd (ief ! j) n"
  proof (intro allI impI)
    fix j assume j: "?i < j \<and> j < length ief"
    let ?m = "length ief - Suc j"
    from j lt have "?m < k" by arith
    with k(4) have "\<not> snd (rev ief ! ?m) n" by blast
    moreover have "rev ief ! ?m = ief ! j"
    proof -
      from j have "?m < length ief" "length ief - Suc ?m = j" by arith+
      then show ?thesis by (simp add: rev_nth)
    qed
    ultimately show "\<not> snd (ief ! j) n" by simp
  qed
  from lt have "?i < length ief" by arith
  with k(2,3) nth later show ?R by (intro exI[of _ ?i]) simp
next
  assume ?R
  then obtain i where i: "i < length ief" "snd (ief ! i) n" "fst (ief ! i) = Include"
      "\<forall>j. i < j \<and> j < length ief \<longrightarrow> \<not> snd (ief ! j) n"
    by blast
  let ?k = "length ief - Suc i"
  from i(1) have klt: "?k < length (rev ief)" by simp
  from i(1) have nth: "rev ief ! ?k = ief ! i" by (simp add: rev_nth)
  have earlier: "\<forall>m < ?k. \<not> snd (rev ief ! m) n"
  proof (intro allI impI)
    fix m assume m: "m < ?k"
    let ?j = "length ief - Suc m"
    from m i(1) have "i < ?j \<and> ?j < length ief" by arith
    with i(4) have "\<not> snd (ief ! ?j) n" by blast
    moreover from m have "rev ief ! m = ief ! ?j" by (simp add: rev_nth)
    ultimately show "\<not> snd (rev ief ! m) n" by simp
  qed
  from klt nth i(2,3) earlier
  have "\<exists>k < length (rev ief). snd (rev ief ! k) n \<and> fst (rev ief ! k) = Include \<and>
          (\<forall>m < k. \<not> snd (rev ief ! m) n)"
    by (intro exI[of _ ?k]) simp
  then show ?L unfolding ief_Filter_def Filter_rev_iff .
qed

lemma PrefixFilter_iff:
  "PrefixFilter pfx n =
     (n = pfx \<or> (\<exists>rest. n = pfx @ ''/'' @ rest)
      \<or> (\<exists>stem rest. pfx = stem @ ''/'' \<and> n = pfx @ rest))"
proof
  assume "PrefixFilter pfx n"
  then obtain zs where zs: "n = pfx @ zs"
    and b: "(pfx \<noteq> [] \<and> last pfx = CHR ''/'') \<or> length n = length pfx
              \<or> n ! length pfx = CHR ''/''"
    unfolding PrefixFilter_def prefix_def by blast
  show "n = pfx \<or> (\<exists>rest. n = pfx @ ''/'' @ rest)
      \<or> (\<exists>stem rest. pfx = stem @ ''/'' \<and> n = pfx @ rest)"
  proof (cases "pfx \<noteq> [] \<and> last pfx = CHR ''/''")
    case True
    then have "pfx = butlast pfx @ ''/''" by (metis append_butlast_last_id)
    with zs show ?thesis by blast
  next
    case False
    with b have b': "length n = length pfx \<or> n ! length pfx = CHR ''/''" by blast
    show ?thesis
    proof (cases zs)
      case Nil
      with zs show ?thesis by simp
    next
      case (Cons c cs)
      with zs b' have "c = CHR ''/''" by (simp add: nth_append)
      with zs Cons show ?thesis by simp
    qed
  qed
next
  assume "n = pfx \<or> (\<exists>rest. n = pfx @ ''/'' @ rest)
      \<or> (\<exists>stem rest. pfx = stem @ ''/'' \<and> n = pfx @ rest)"
  then show "PrefixFilter pfx n"
    unfolding PrefixFilter_def by (auto simp: nth_append)
qed

lemma boundary_example_main: "ief_Filter [(Include, PrefixFilter ''refs/heads''), (Exclude, PrefixFilter ''refs/heads/archive'')] ''refs/heads/main''"
  by (simp add: ief_Filter_def PrefixFilter_def)
lemma boundary_example_archive: "\<not> ief_Filter [(Include, PrefixFilter ''refs/heads''), (Exclude, PrefixFilter ''refs/heads/archive'')] ''refs/heads/archive/old''"
  by (simp add: ief_Filter_def PrefixFilter_def)
lemma boundary_example_headsbranch: "\<not> ief_Filter [(Include, PrefixFilter ''refs/heads''), (Exclude, PrefixFilter ''refs/heads/archive'')] ''refs/headsbranch''"
  by (simp add: ief_Filter_def PrefixFilter_def)

text \<open>The parse of an argument list, and \<^verbatim>\<open>filterValue.Set\<close> by kind of option.\<close>

lemma Parse_append:
  "Parse w (xs @ ys) st = (case Parse w xs st of Inl err \<Rightarrow> Inl err | Inr st' \<Rightarrow> Parse w ys st')"
proof (induction w xs st rule: Parse.induct)
  case (1 w st)
  then show ?case by simp
next
  case (2 w s rest st)
  then show ?case by simp
next
  case (3 w name val rest st)
  then show ?case by (simp split: option.splits sum.splits)
qed

lemma filterValue_Set_user_prefix:
  "filterValue_Set w \<lparr>polarity = pol, pattern = [], regexp = False\<rparr> flt pfx = Inr (flt @ [(pol, PrefixFilter pfx)])"
  by (cases pol) (simp_all add: filterValue_Set_def ief_Include_def ief_Exclude_def)

lemma filterValue_Set_fixed:
  assumes "pattern v \<noteq> []"
  shows "filterValue_Set w v flt s =
     (case ParseBool s of
        (b, Some err) \<Rightarrow> Inl err
      | (b, None) \<Rightarrow>
          (case (if regexp v then regexp_Compile w (pattern v) else Some (PrefixFilter (pattern v))) of
             None \<Rightarrow> Inl (InvalidRegexp s)
           | Some f \<Rightarrow> Inr (flt @ [(if b then polarity v else Inverted (polarity v), f)])))"
  using assms
  by (cases "polarity v")
     (auto simp: filterValue_Set_def RegexpFilter_def ief_Include_def ief_Exclude_def Inverted_def
           split: prod.splits option.splits sum.splits Polarity.splits)

lemma ParseBool_true: "ParseBool ''true'' = (True, None)"
  by (simp add: ParseBool_def)
lemma ParseBool_false: "ParseBool ''false'' = (False, None)"
  by (simp add: ParseBool_def)

lemma ParseBool_error: "snd (ParseBool s) \<noteq> None \<Longrightarrow> ParseBool s = (False, Some (ParseBoolSyntax s))"
  by (simp add: ParseBool_def split: if_splits)

lemma Inverted_simps: "Inverted Include = Exclude" "Inverted Exclude = Include"
  by (simp_all add: Inverted_def)

lemma Parse_FilterValue:
  "map_of flag_table name = Some (FilterValue v) \<Longrightarrow>
     Parse w (Opt name val # rest) st =
       (case filterValue_Set w v (filter_v st) val of
          Inl err \<Rightarrow> Inl (InvalidArgument val name err)
        | Inr flt \<Rightarrow> Parse w rest (st\<lparr>filter_v := flt\<rparr>))"
  by (simp add: flag_Set_def split: sum.splits)

lemma switch_pair:
  assumes n: "map_of flag_table name = Some (FilterValue v)"
    and n': "map_of flag_table name' = Some (FilterValue (v\<lparr>polarity := Exclude\<rparr>))"
    and pat: "pattern v \<noteq> []" and pol: "polarity v = Include"
    and ok: "regexp v \<longrightarrow> regexp_Compile w (pattern v) \<noteq> None"
  shows "Parse w (Opt name ''false'' # rest) st = Parse w (Opt name' ''true'' # rest) st
       \<and> Parse w (Opt name' ''false'' # rest) st = Parse w (Opt name ''true'' # rest) st"
proof -
  from pat have pat': "pattern (v\<lparr>polarity := Exclude\<rparr>) \<noteq> []" by simp
  show ?thesis
    using ok pol
    by (auto simp del: Parse.simps simp add: Parse_FilterValue[OF n] Parse_FilterValue[OF n']
        filterValue_Set_fixed[OF pat] filterValue_Set_fixed[OF pat']
        ParseBool_true ParseBool_false Inverted_simps split: option.splits)
qed

lemma flag_table_switches:
  "map_of flag_table ''branches'' = Some (FilterValue \<lparr>polarity = Include, pattern = ''refs/heads'', regexp = False\<rparr>)"
  "map_of flag_table ''no-branches'' = Some (FilterValue \<lparr>polarity = Exclude, pattern = ''refs/heads'', regexp = False\<rparr>)"
  "map_of flag_table ''tags'' = Some (FilterValue \<lparr>polarity = Include, pattern = ''refs/tags'', regexp = False\<rparr>)"
  "map_of flag_table ''no-tags'' = Some (FilterValue \<lparr>polarity = Exclude, pattern = ''refs/tags'', regexp = False\<rparr>)"
  "map_of flag_table ''remotes'' = Some (FilterValue \<lparr>polarity = Include, pattern = ''refs/remotes'', regexp = False\<rparr>)"
  "map_of flag_table ''no-remotes'' = Some (FilterValue \<lparr>polarity = Exclude, pattern = ''refs/remotes'', regexp = False\<rparr>)"
  "map_of flag_table ''notes'' = Some (FilterValue \<lparr>polarity = Include, pattern = ''refs/notes'', regexp = False\<rparr>)"
  "map_of flag_table ''no-notes'' = Some (FilterValue \<lparr>polarity = Exclude, pattern = ''refs/notes'', regexp = False\<rparr>)"
  "map_of flag_table ''stash'' = Some (FilterValue \<lparr>polarity = Include, pattern = ''refs/stash'', regexp = True\<rparr>)"
  "map_of flag_table ''no-stash'' = Some (FilterValue \<lparr>polarity = Exclude, pattern = ''refs/stash'', regexp = True\<rparr>)"
  by (simp_all add: flag_table_def)

text \<open>The example environment, evaluated.\<close>

lemma TrimSpace_ex:
  "TrimSpace ''.git\<newline>'' = ''.git''"
  "TrimSpace ''shallow\<newline>'' = ''shallow''"
  "TrimSpace ''/srv/repo.git \<newline>'' = ''/srv/repo.git''"
  by (simp_all add: TrimSpace_def TrimRightFunc_def unicode_IsSpace_def TrimLeftFunc.simps)

lemma TrimSpace_unicode:
  "TrimSpace [CHR 0xC2, CHR 0xA0, CHR ''a'', CHR 0x20, CHR ''b'', CHR 0xE2, CHR 0x80, CHR 0x89,
              CHR 0xC2, CHR 0x85] = ''a b''"
  "TrimSpace [CHR ''a'', CHR 0x85] = [CHR ''a'', CHR 0x85]"
  by (simp_all add: TrimSpace_def TrimRightFunc_def unicode_IsSpace_def TrimLeftFunc.simps)

lemma NewRepository_example:
  "NewRepository example_world ''.'' = (Some \<lparr>path = ''.git'', gitBin = ''/usr/bin/git''\<rparr>, None)"
  by (simp add: NewRepository_def GitDir_def IsShallow_def smartJoin_def filepath_IsAbs_def
      example_world_def TrimSpace_ex)

lemma NewRepository_shallow:
  "NewRepository shallow_world ''.'' = (None, Some ShallowClone)"
  by (simp add: NewRepository_def GitDir_def IsShallow_def smartJoin_def filepath_IsAbs_def
      example_world_def shallow_world_def TrimSpace_ex)

lemma decimal_3: "decimal ''3'' = Some 3"
  by (simp add: decimal_def)

lemma Parse_json_version_3:
  "Parse example_world [Opt ''json-version'' ''3''] (initial_flagvars example_world)
     = Inr ((initial_flagvars example_world)\<lparr>jsonVersion := 3\<rparr>)"
  by (simp add: flag_table_def flag_Set_def example_world_def decimal_3)

lemma initial_flagvars_example: "initial_flagvars example_world = \<lparr>nameStyle = NameStyleFull, cpuprofile = [], jsonOutput = False, jsonVersion = 1,
      threshold = 1, progress = False, version = False, filter_v = [], showRefs = False, args = []\<rparr>"
  by (simp add: initial_flagvars_def example_world_def)

lemma example_world_fields:
  "regexp_Compile example_world p = (if CHR ''('' \<in> set p then None else Some (\<lambda>refname. refname = p))"
  "strconv_ParseUint example_world = decimal"
  "threshold_off example_world t = 1"
  "Isatty example_world = Inr False"
  "os_Create example_world name = None"
  "findGitBin example_world = Inr ''/usr/bin/git''"
  "ScanRepositoryUsingGraph example_world repo refFilter names prog =
     ([''refs/heads/main'', ''refs/tags/v1''],
      Inr (length (filter refFilter [''refs/heads/main'', ''refs/tags/v1''])))"
  "json_MarshalIndent example_world h = Inr ''{}''"
  "HistorySize_JSON example_world h t names = Inr ''[]''"
  "TableString example_world h t names = ''table''"
  "ReleaseVersion example_world = []"
  "BuildVersion example_world = ''dev''"
  by (simp_all add: example_world_def)

lemma ief_Filter_Nil: "ief_Filter [] refname = False"
  by (simp add: ief_Filter_def)

text \<open>
  The parts of \<^verbatim>\<open>mainImplementation\<close>: what each writes, and when the scanner is called.
\<close>

lemma fst_filters:
  "(\<lambda>refname. fst (showRefsFilter f refname)) = f"
  "(\<lambda>refname. fst (quietFilter f refname)) = f"
  by (auto simp: showRefsFilter_def quietFilter_def Let_def)

lemma snd_showRefsFilter:
  "snd (showRefsFilter f refname) =
     [Fprintf Stderr (if f refname then ''+ %s\<newline>'' else ''  %s\<newline>'') [S refname]]"
  by (simp add: showRefsFilter_def Let_def)

lemma output_cases:
  "mainImplementation_output w st h = (out, r) \<Longrightarrow>
     (\<forall>ev \<in> set out. writes_to Stdout ev \<and> \<not> writes_to Stderr ev \<and> \<not> prints_error ev)
     \<and> (r \<noteq> None \<longrightarrow> out = [])"
  by (auto simp: mainImplementation_output_def split: if_splits sum.splits)

lemma scan_unfold:
  "mainImplementation_scan w st repo =
     (case ScanRepositoryUsingGraph w repo (ief_Filter (filter_v st)) (nameStyle st) (progress st) of
        (asked, result) \<Rightarrow>
          (let evs = (if showRefs st then
                 Fprintf Stderr ''References (included references marked with '+'):\<newline>'' []
                   # ScanRepositoryCall
                   # concat (map (\<lambda>refname. snd (showRefsFilter (ief_Filter (filter_v st)) refname)) asked)
               else [ScanRepositoryCall])
           in case result of
                Inl err \<Rightarrow> (evs, Some (ErrorScanningRepository err))
              | Inr historySize \<Rightarrow>
                  (evs @ fst (mainImplementation_output w st historySize),
                   snd (mainImplementation_output w st historySize))))"
  by (cases "showRefs st")
     (auto simp: mainImplementation_scan_def fst_filters quietFilter_def Let_def
           split: prod.splits sum.splits)

lemma shown_events:
  "ev \<in> set (concat (map (\<lambda>refname. snd (showRefsFilter f refname)) asked)) \<Longrightarrow>
     writes_to Stderr ev \<and> \<not> writes_to Stdout ev \<and> \<not> prints_error ev"
  by (induction asked) (auto simp: snd_showRefsFilter split: if_splits)

lemma scan_events:
  assumes "mainImplementation_scan w st repo = (evs, r)"
  shows "(\<forall>ev \<in> set evs. \<not> prints_error ev)
       \<and> (r \<noteq> None \<longrightarrow> (\<forall>ev \<in> set evs. \<not> writes_to Stdout ev))
       \<and> ScanRepositoryCall \<in> set evs"
proof -
  obtain asked result where sc:
    "ScanRepositoryUsingGraph w repo (ief_Filter (filter_v st)) (nameStyle st) (progress st) = (asked, result)"
    by (cases "ScanRepositoryUsingGraph w repo (ief_Filter (filter_v st)) (nameStyle st) (progress st)")
  define pre where "pre = (if showRefs st then
                 Fprintf Stderr ''References (included references marked with '+'):\<newline>'' []
                   # ScanRepositoryCall
                   # concat (map (\<lambda>refname. snd (showRefsFilter (ief_Filter (filter_v st)) refname)) asked)
               else [ScanRepositoryCall])"
  have pre: "\<forall>ev \<in> set pre. \<not> prints_error ev \<and> \<not> writes_to Stdout ev"
    unfolding pre_def using shown_events[of _ "ief_Filter (filter_v st)" asked] by auto
  have call: "ScanRepositoryCall \<in> set pre"
    unfolding pre_def by simp
  show ?thesis
  proof (cases result)
    case (Inl err)
    with assms sc have "evs = pre" "r = Some (ErrorScanningRepository err)"
      by (simp_all add: scan_unfold pre_def)
    with pre call show ?thesis by simp
  next
    case (Inr h)
    obtain out r' where o: "mainImplementation_output w st h = (out, r')"
      by (cases "mainImplementation_output w st h")
    with assms sc Inr have e: "evs = pre @ out" "r = r'"
      by (simp_all add: scan_unfold pre_def)
    from output_cases[OF o] have
      out: "\<forall>ev \<in> set out. \<not> prints_error ev" "r' \<noteq> None \<longrightarrow> out = []"
      by blast+
    with pre call e show ?thesis by auto
  qed
qed

lemma run_json_version:
  "jsonOutput st \<Longrightarrow> jsonVersion st \<noteq> 1 \<Longrightarrow> jsonVersion st \<noteq> 2 \<Longrightarrow>
     mainImplementation_run w st = ([], Some JSONVersionError)"
  by (simp add: mainImplementation_run_def)

lemma open_events:
  assumes "mainImplementation_open w st = (evs, r)"
  shows "(\<forall>ev \<in> set evs. \<not> prints_error ev)
       \<and> (r \<noteq> None \<longrightarrow> (\<forall>ev \<in> set evs. \<not> writes_to Stdout ev))
       \<and> (ScanRepositoryCall \<in> set evs \<longrightarrow> (\<exists>repo. NewRepository w ''.'' = (Some repo, None)))"
proof (cases "version st \<or> length (args st) \<noteq> 0")
  case True
  with assms show ?thesis by (auto simp: mainImplementation_open_def split: if_splits)
next
  case False
  note nv = this
  obtain ro eo where nr: "NewRepository w ''.'' = (ro, eo)" by (cases "NewRepository w ''.''")
  show ?thesis
  proof (cases eo)
    case (Some err)
    with assms nv nr show ?thesis by (auto simp: mainImplementation_open_def split: option.splits)
  next
    case None
    note eo = this
    show ?thesis
    proof (cases ro)
      case None
      with assms nv nr eo show ?thesis by (auto simp: mainImplementation_open_def)
    next
      case (Some repo)
      obtain evs' r' where sc: "mainImplementation_scan w st repo = (evs', r')"
        by (cases "mainImplementation_scan w st repo")
      with assms nv nr eo Some have e: "evs = NewRepositoryCall ''.'' # evs' @ [RepositoryClose]" "r = r'"
        by (auto simp: mainImplementation_open_def)
      from scan_events[OF sc] e nr eo Some show ?thesis by auto
    qed
  qed
qed

lemma run_unfold:
  "mainImplementation_run w st =
     (if jsonOutput st \<and> \<not> (jsonVersion st = 1 \<or> jsonVersion st = 2) then
        ([], Some JSONVersionError)
      else if cpuprofile st \<noteq> [] then
        (case os_Create w (cpuprofile st) of
           Some err \<Rightarrow> ([], Some (CpuprofileError err))
         | None \<Rightarrow> ([CreateFile (cpuprofile st), StartCPUProfile] @ fst (mainImplementation_open w st) @ [StopCPUProfile],
                     snd (mainImplementation_open w st)))
      else mainImplementation_open w st)"
  unfolding mainImplementation_run_def
  by (auto split: option.splits prod.splits)

lemma run_events:
  assumes "mainImplementation_run w st = (evs, r)"
  shows "(\<forall>ev \<in> set evs. \<not> prints_error ev)
       \<and> (r \<noteq> None \<longrightarrow> (\<forall>ev \<in> set evs. \<not> writes_to Stdout ev))
       \<and> (ScanRepositoryCall \<in> set evs \<longrightarrow> (\<exists>repo. NewRepository w ''.'' = (Some repo, None)))"
proof -
  obtain evs' r' where t: "mainImplementation_open w st = (evs', r')" by (cases "mainImplementation_open w st")
  from open_events[OF t] assms t show ?thesis
    by (auto simp: run_unfold split: if_splits option.splits)
qed

lemma NewRepository_result:
  "NewRepository w pth \<noteq> (None, None)"
  by (auto simp: NewRepository_def IsShallow_def Let_def split: sum.splits option.splits prod.splits)

lemma switch_family:
  assumes n: "map_of flag_table name = Some (FilterValue v)"
    and n': "map_of flag_table (''no-'' @ name) = Some (FilterValue (v\<lparr>polarity := Exclude\<rparr>))"
    and pat: "pattern v \<noteq> []" and pol: "polarity v = Include"
  shows "\<exists>v. map_of flag_table name = Some (FilterValue v) \<and> pattern v \<noteq> []
              \<and> polarity v = Include
              \<and> map_of flag_table (''no-'' @ name)
                  = Some (FilterValue (v\<lparr>polarity := Exclude\<rparr>))
              \<and> ((regexp v \<longrightarrow> regexp_Compile w (pattern v) \<noteq> None) \<longrightarrow>
                   Parse w (Opt name ''false'' # rest) st
                     = Parse w (Opt (''no-'' @ name) ''true'' # rest) st
                   \<and> Parse w (Opt (''no-'' @ name) ''false'' # rest) st
                     = Parse w (Opt name ''true'' # rest) st)"
  using switch_pair[OF n n' pat pol] n n' pat pol by blast

text \<open>Without JSON output the version of the schema is not looked at.\<close>

lemma output_ignores_json_version:
  "\<not> jsonOutput st \<Longrightarrow>
     mainImplementation_output w (st\<lparr>jsonVersion := n\<rparr>) h = mainImplementation_output w st h"
  by (simp add: mainImplementation_output_def)

lemma scan_ignores_json_version:
  "\<not> jsonOutput st \<Longrightarrow>
     mainImplementation_scan w (st\<lparr>jsonVersion := n\<rparr>) repo = mainImplementation_scan w st repo"
  by (simp add: mainImplementation_scan_def output_ignores_json_version
        cong: prod.case_cong sum.case_cong)

lemma open_ignores_json_version:
  "\<not> jsonOutput st \<Longrightarrow>
     mainImplementation_open w (st\<lparr>jsonVersion := n\<rparr>) = mainImplementation_open w st"
  by (simp add: mainImplementation_open_def scan_ignores_json_version
        cong: prod.case_cong option.case_cong)

lemma run_ignores_json_version:
  "\<not> jsonOutput st \<Longrightarrow>
     mainImplementation_run w (st\<lparr>jsonVersion := n\<rparr>) = mainImplementation_run w st"
  by (simp add: mainImplementation_run_def open_ignores_json_version
        cong: prod.case_cong sum.case_cong option.case_cong)

lemma Parse_json_3:
  "Parse example_world [Opt ''json'' ''true'', Opt ''json-version'' ''3''] (initial_flagvars example_world)
     = Inr ((initial_flagvars example_world)\<lparr>jsonOutput := True, jsonVersion := 3\<rparr>)"
  by (simp add: flag_table_def flag_Set_def boolValue_Set_def ParseBool_true example_world_fields decimal_3)

lemma Parse_branches_example:
  "Parse example_world [Opt ''branches'' ''true''] (initial_flagvars example_world)
     = Inr ((initial_flagvars example_world)\<lparr>filter_v := [(Include, PrefixFilter ''refs/heads'')]\<rparr>)"
  by (simp del: Parse.simps(3) add: Parse_FilterValue[OF flag_table_switches(1)] filterValue_Set_fixed
        ParseBool_true initial_flagvars_example)

text \<open>
  \<^verbatim>\<open>NewRepository\<close> on a shallow clone; and what it does with an error of the shallow
  check: \<^verbatim>\<open>IsShallow\<close> returns it with \<^verbatim>\<open>false\<close>, and \<^verbatim>\<open>NewRepository\<close> looks at the
  error only when the answer is \<^verbatim>\<open>true\<close>.
\<close>

lemma NewRepository_shallow_file:
  assumes "findGitBin w = Inr git" and "GitDir w git pth = Inr gitDir"
    and "exec_git_path_shallow w git gitDir = Inr out"
    and "os_Lstat w (smartJoin w gitDir (TrimSpace out)) = None"
  shows "NewRepository w pth = (None, Some ShallowClone)"
  using assms by (simp add: NewRepository_def IsShallow_def)

lemma no_scan_without_repository:
  assumes "NewRepository w ''.'' = (None, err)"
  shows "ScanRepositoryCall \<notin> set (fst (mainImplementation w arguments))"
proof (cases "Parse w arguments (initial_flagvars w)")
  case (Inl e)
  then show ?thesis by (simp add: mainImplementation_def)
next
  case (Inr st)
  obtain evs r where run: "mainImplementation_run w st = (evs, r)"
    by (cases "mainImplementation_run w st")
  from run_events[OF run] assms have "ScanRepositoryCall \<notin> set evs" by auto
  with Inr run show ?thesis by (simp add: mainImplementation_def)
qed

lemma NewRepository_drops_IsShallow_error:
  assumes "findGitBin w = Inr git" and "GitDir w git pth = Inr gitDir"
    and "exec_git_path_shallow w git gitDir = Inl err"
  shows "NewRepository w pth = (Some \<lparr>path = gitDir, gitBin = git\<rparr>, None)"
  using assms by (simp add: NewRepository_def IsShallow_def)

text \<open>The run with and without \<^verbatim>\<open>--show-refs\<close>.\<close>

lemma output_ignores_showRefs:
  "mainImplementation_output w (st\<lparr>showRefs := b\<rparr>) h = mainImplementation_output w st h"
  by (simp add: mainImplementation_output_def)

lemma output_not_stderr:
  "filter (\<lambda>ev. \<not> writes_to Stderr ev) (fst (mainImplementation_output w st h))
     = fst (mainImplementation_output w st h)"
  by (simp add: mainImplementation_output_def split: sum.splits)

lemma shown_filtered:
  "filter (\<lambda>ev. \<not> writes_to Stderr ev)
     (concat (map (\<lambda>refname. snd (showRefsFilter f refname)) asked)) = []"
  by (induction asked) (simp_all add: snd_showRefsFilter)

lemma scan_showRefs:
  "snd (mainImplementation_scan w (st\<lparr>showRefs := True\<rparr>) repo)
     = snd (mainImplementation_scan w (st\<lparr>showRefs := False\<rparr>) repo)
   \<and> filter (\<lambda>ev. \<not> writes_to Stderr ev) (fst (mainImplementation_scan w (st\<lparr>showRefs := True\<rparr>) repo))
     = fst (mainImplementation_scan w (st\<lparr>showRefs := False\<rparr>) repo)"
proof -
  obtain asked result where sc:
    "ScanRepositoryUsingGraph w repo (ief_Filter (filter_v st)) (nameStyle st) (progress st) = (asked, result)"
    by (cases "ScanRepositoryUsingGraph w repo (ief_Filter (filter_v st)) (nameStyle st) (progress st)")
  show ?thesis
  proof (cases result)
    case (Inl err)
    with sc show ?thesis by (simp add: scan_unfold shown_filtered)
  next
    case (Inr h)
    with sc show ?thesis
      by (simp add: scan_unfold shown_filtered output_ignores_showRefs output_not_stderr)
  qed
qed

lemma open_unfold:
  "mainImplementation_open w st =
     (if version st then
        (if ReleaseVersion w \<noteq> [] then
           ([Fprintf Stdout ''git-sizer release %s\<newline>'' [S (ReleaseVersion w)]], None)
         else
           ([Fprintf Stdout ''git-sizer build %s\<newline>'' [S (BuildVersion w)]], None))
      else if args st \<noteq> [] then ([], Some ExcessArguments)
      else
        (case NewRepository w ''.'' of
           (r, Some err) \<Rightarrow> ([NewRepositoryCall ''.''], Some (CouldntOpenRepository err))
         | (None, None) \<Rightarrow> ([NewRepositoryCall ''.''], Some NilPointerPanic)
         | (Some repo, None) \<Rightarrow>
             (NewRepositoryCall ''.'' # fst (mainImplementation_scan w st repo) @ [RepositoryClose],
              snd (mainImplementation_scan w st repo))))"
  by (simp add: mainImplementation_open_def split: prod.splits option.splits)

lemma open_showRefs:
  "snd (mainImplementation_open w (st\<lparr>showRefs := True\<rparr>))
     = snd (mainImplementation_open w (st\<lparr>showRefs := False\<rparr>))
   \<and> filter (\<lambda>ev. \<not> writes_to Stderr ev) (fst (mainImplementation_open w (st\<lparr>showRefs := True\<rparr>)))
     = fst (mainImplementation_open w (st\<lparr>showRefs := False\<rparr>))"
proof -
  obtain ro eo where nr: "NewRepository w ''.'' = (ro, eo)" by (cases "NewRepository w ''.''")
  show ?thesis
  proof (cases "\<exists>repo. ro = Some repo \<and> eo = None")
    case True
    then obtain repo where "ro = Some repo" "eo = None" by blast
    with nr scan_showRefs[of w st repo] show ?thesis
      by (simp add: open_unfold)
  next
    case False
    with nr show ?thesis
      by (cases ro; cases eo) (simp_all add: open_unfold)
  qed
qed

lemma run_showRefs:
  "snd (mainImplementation_run w (st\<lparr>showRefs := True\<rparr>))
     = snd (mainImplementation_run w (st\<lparr>showRefs := False\<rparr>))
   \<and> filter (\<lambda>ev. \<not> writes_to Stderr ev) (fst (mainImplementation_run w (st\<lparr>showRefs := True\<rparr>)))
     = fst (mainImplementation_run w (st\<lparr>showRefs := False\<rparr>))"
  using open_showRefs[of w st]
  by (simp add: run_unfold split: option.splits)

lemma Parse_show_refs:
  "Parse w arguments st0 = Inr st \<Longrightarrow>
     Parse w (arguments @ [Opt ''show-refs'' ''true'']) st0 = Inr (st\<lparr>showRefs := True\<rparr>)"
  by (simp add: Parse_append flag_table_def flag_Set_def boolValue_Set_def ParseBool_true)

lemma example_branches_run:
  "mainImplementation_run example_world
      ((initial_flagvars example_world)\<lparr>filter_v := [(Include, PrefixFilter ''refs/heads'')],
          showRefs := False\<rparr>)
     = ([NewRepositoryCall ''.'', ScanRepositoryCall, WriteString Stdout ''table'',
         RepositoryClose], None)"
  by (simp add: initial_flagvars_example run_unfold open_unfold NewRepository_example scan_unfold
        mainImplementation_output_def example_world_fields)

lemma example_branches_run_shown:
  "mainImplementation_run example_world
      ((initial_flagvars example_world)\<lparr>filter_v := [(Include, PrefixFilter ''refs/heads'')],
          showRefs := True\<rparr>)
     = ([NewRepositoryCall ''.'',
         Fprintf Stderr ''References (included references marked with '+'):\<newline>'' [],
         ScanRepositoryCall,
         Fprintf Stderr ''+ %s\<newline>'' [S ''refs/heads/main''],
         Fprintf Stderr ''  %s\<newline>'' [S ''refs/tags/v1''],
         WriteString Stdout ''table'', RepositoryClose], None)"
  by (simp add: initial_flagvars_example run_unfold open_unfold NewRepository_example scan_unfold
        mainImplementation_output_def example_world_fields snd_showRefsFilter ief_Filter_def
        PrefixFilter_def)

text \<open>The error that a run returns once it has reached the repository.\<close>

lemma main_events:
  "(\<forall>ev \<in> set (fst (mainImplementation w arguments)). \<not> prints_error ev)
   \<and> (snd (mainImplementation w arguments) \<noteq> None \<longrightarrow>
        (\<forall>ev \<in> set (fst (mainImplementation w arguments)). \<not> writes_to Stdout ev))"
proof (cases "Parse w arguments (initial_flagvars w)")
  case (Inl e)
  then show ?thesis by (simp add: mainImplementation_def)
next
  case (Inr st)
  obtain evs r where run: "mainImplementation_run w st = (evs, r)"
    by (cases "mainImplementation_run w st")
  from run_events[OF run] Inr run show ?thesis by (simp add: mainImplementation_def)
qed

lemma run_reaches:
  "reaches_NewRepository w st \<Longrightarrow>
     snd (mainImplementation_run w st) =
       (case NewRepository w ''.'' of
          (r, Some err) \<Rightarrow> Some (CouldntOpenRepository err)
        | (None, None) \<Rightarrow> Some NilPointerPanic
        | (Some repo, None) \<Rightarrow> snd (mainImplementation_scan w st repo))"
  by (auto simp: reaches_NewRepository_def run_unfold open_unfold split: option.splits prod.splits)

lemma scan_result:
  "snd (mainImplementation_scan w st repo) =
     (case snd (ScanRepositoryUsingGraph w repo (ief_Filter (filter_v st)) (nameStyle st) (progress st)) of
        Inl err \<Rightarrow> Some (ErrorScanningRepository err)
      | Inr h \<Rightarrow> snd (mainImplementation_output w st h))"
  by (simp add: scan_unfold Let_def split: prod.splits sum.splits)

lemma reached_result:
  assumes "Parse w arguments (initial_flagvars w) = Inr st" and "reaches_NewRepository w st"
  shows "snd (mainImplementation w arguments) =
       (case NewRepository w ''.'' of
          (r, Some err) \<Rightarrow> Some (CouldntOpenRepository err)
        | (None, None) \<Rightarrow> Some NilPointerPanic
        | (Some repo, None) \<Rightarrow>
            (case snd (ScanRepositoryUsingGraph w repo (ief_Filter (filter_v st)) (nameStyle st)
                        (progress st)) of
               Inl err \<Rightarrow> Some (ErrorScanningRepository err)
             | Inr h \<Rightarrow> snd (mainImplementation_output w st h)))"
  using assms
  by (simp add: mainImplementation_def run_reaches scan_result
        cong: prod.case_cong option.case_cong)

text \<open>The severity: monotone, and the floor of the logarithm.\<close>

lemma stars_mono: "v1 \<le> v2 \<Longrightarrow> stars b r v1 \<le> stars b r v2"
proof (induction b r v1 rule: stars.induct)
  case (1 base reasonable v)
  show ?case
  proof (cases "2 \<le> base \<and> 0 < reasonable \<and> reasonable * base \<le> v")
    case True
    with "1.prems" have c2: "2 \<le> base \<and> 0 < reasonable \<and> reasonable * base \<le> v2" by simp
    from "1.IH"[OF True "1.prems"] have "stars base (reasonable * base) v \<le> stars base (reasonable * base) v2" .
    moreover from True have "stars base reasonable v = Suc (stars base (reasonable * base) v)"
      by (subst stars.simps) simp
    moreover from c2 have "stars base reasonable v2 = Suc (stars base (reasonable * base) v2)"
      by (subst stars.simps) simp
    ultimately show ?thesis by simp
  next
    case False
    then have "stars base reasonable v = 0" by (subst stars.simps) simp
    then show ?thesis by simp
  qed
qed

lemma stars_bounds:
  "2 \<le> b \<Longrightarrow> 0 < r \<Longrightarrow> r \<le> v \<Longrightarrow> r * b ^ stars b r v \<le> v \<and> v < r * b ^ Suc (stars b r v)"
proof (induction b r v rule: stars.induct)
  case (1 base reasonable v)
  show ?case
  proof (cases "reasonable * base \<le> v")
    case True
    with "1.prems" have g: "2 \<le> base \<and> 0 < reasonable \<and> reasonable * base \<le> v" by simp
    then have s: "stars base reasonable v = Suc (stars base (reasonable * base) v)"
      by (subst stars.simps) simp
    from g have "0 < reasonable * base" by simp
    from "1.IH"[OF g "1.prems"(1) this True]
    have "reasonable * base * base ^ stars base (reasonable * base) v \<le> v
        \<and> v < reasonable * base * base ^ Suc (stars base (reasonable * base) v)" .
    with s show ?thesis by (simp add: mult.assoc)
  next
    case False
    then have "stars base reasonable v = 0" by (subst stars.simps) simp
    with False "1.prems" show ?thesis by simp
  qed
qed

lemma stars_below: "v < r \<Longrightarrow> stars b r v = 0"
proof -
  assume lt: "v < r"
  have "\<not> (2 \<le> b \<and> 0 < r \<and> r * b \<le> v)"
  proof
    assume a: "2 \<le> b \<and> 0 < r \<and> r * b \<le> v"
    then have "r * 1 \<le> r * b" by (intro mult_le_mono2) simp
    with a lt show False by simp
  qed
  then show ?thesis by (subst stars.simps) simp
qed

lemma stars_formula:
  assumes b: "2 \<le> b" and r: "0 < r" and v: "0 < v"
  shows "stars b r v = nat (max 0 \<lfloor>log (real b) (real v / real r)\<rfloor>)"
proof (cases "v < r")
  case True
  then have s: "stars b r v = 0" by (rule stars_below)
  from True r v have "real v / real r < 1" by simp
  moreover from r v have "0 < real v / real r" by simp
  ultimately have "log (real b) (real v / real r) < 0" using b by simp
  then have "\<lfloor>log (real b) (real v / real r)\<rfloor> \<le> 0" by (simp add: floor_le_zero)
  with s show ?thesis by simp
next
  case False
  then have rv: "r \<le> v" by simp
  let ?k = "stars b r v"
  from stars_bounds[OF b r rv] have lo: "r * b ^ ?k \<le> v" and hi: "v < r * b ^ Suc ?k" by simp_all
  from r have rr: "0 < real r" by simp
  have lo': "real b ^ ?k \<le> real v / real r"
  proof -
    from lo have "real (r * b ^ ?k) \<le> real v" by (simp only: of_nat_le_iff)
    then have "real b ^ ?k * real r \<le> real v" by (simp add: mult.commute)
    with rr show ?thesis by (simp add: pos_le_divide_eq)
  qed
  have hi': "real v / real r < real b ^ Suc ?k"
  proof -
    from hi have "real v < real (r * b ^ Suc ?k)" by (simp only: of_nat_less_iff)
    then have "real v < real b ^ Suc ?k * real r" by (simp add: mult.commute mult.assoc)
    with rr show ?thesis by (simp only: pos_divide_less_eq)
  qed
  from b have b1: "1 < real b" "0 < real b" by simp_all
  from r v have x: "0 < real v / real r" by simp
  have "\<lfloor>log (real b) (real v / real r)\<rfloor> = int ?k"
  proof -
    have "real b powr real_of_int (int ?k) \<le> real v / real r"
      using lo' b1 by (simp add: powr_realpow)
    moreover have "real v / real r < real b powr real_of_int (int ?k + 1)"
    proof -
      have "real_of_int (int ?k + 1) = real (Suc ?k)" by simp
      then have "real b powr real_of_int (int ?k + 1) = real b ^ Suc ?k"
        using b1 by (simp only: powr_realpow)
      with hi' show ?thesis by simp
    qed
    ultimately show ?thesis
      using floor_log_eq_powr_iff[OF x b1(1), of "int ?k"] by simp
  qed
  then show ?thesis by simp
qed

lemma stars_zero: "stars b r 0 = 0"
  by (subst stars.simps) auto

lemma stars_example: "stars 2 10 85 = 3" "stars 2 10 20 = 1"
  by (simp_all add: stars.simps)

text \<open>
  A shallow clone that the check finds is refused: when \<^verbatim>\<open>git\<close> is found, the git
  directory of the path is resolved, and the path that
  \<^verbatim>\<open>git rev-parse --git-path shallow\<close> names there exists, \<^verbatim>\<open>NewRepository\<close> returns a nil
  repository and the shallow-clone error; with that answer for the current directory no
  run of \<^verbatim>\<open>mainImplementation\<close> calls the scanner.
\<close>

lemma detected_shallow_clone_is_refused:
  "(findGitBin w = Inr git \<and> GitDir w git pth = Inr gitDir
      \<and> exec_git_path_shallow w git gitDir = Inr out
      \<and> os_Lstat w (smartJoin w gitDir (TrimSpace out)) = None
    \<longrightarrow> NewRepository w pth = (None, Some ShallowClone))
   \<and> (NewRepository w ''.'' = (None, Some ShallowClone) \<longrightarrow>
        ScanRepositoryCall \<notin> set (fst (mainImplementation w arguments))
        \<and> (Parse w arguments (initial_flagvars w) = Inr st \<and> reaches_NewRepository w st \<longrightarrow>
             snd (mainImplementation w arguments) = Some (CouldntOpenRepository ShallowClone)))"
proof -
  have a: "findGitBin w = Inr git \<and> GitDir w git pth = Inr gitDir
      \<and> exec_git_path_shallow w git gitDir = Inr out
      \<and> os_Lstat w (smartJoin w gitDir (TrimSpace out)) = None
    \<longrightarrow> NewRepository w pth = (None, Some ShallowClone)"
    using NewRepository_shallow_file by blast
  have b: "ScanRepositoryCall \<notin> set (fst (mainImplementation w arguments))"
    if "NewRepository w ''.'' = (None, Some ShallowClone)"
    using that by (rule no_scan_without_repository)
  have c: "snd (mainImplementation w arguments) = Some (CouldntOpenRepository ShallowClone)"
    if "NewRepository w ''.'' = (None, Some ShallowClone)"
       "Parse w arguments (initial_flagvars w) = Inr st" "reaches_NewRepository w st"
    using that
    by (auto simp: mainImplementation_def run_unfold mainImplementation_open_def
          reaches_NewRepository_def split: option.splits)
  from a b c show ?thesis by blast
qed

subsection \<open>The claims\<close>

text \<open>
  Claim C1. For every reference name and every ordered list of include and exclude
  rules in the reference filter, the decision is made by the last rule of the list whose
  pattern matches the name, and a name that no rule matches is excluded: the filter
  answers true exactly when some rule matches, is an include rule, and is followed by no
  rule that matches.
\<close>

theorem last_matching_rule_wins:
  "ief_Filter ief refname =
     (\<exists>i < length ief. snd (ief ! i) refname \<and> fst (ief ! i) = Include \<and>
        (\<forall>j. i < j \<and> j < length ief \<longrightarrow> \<not> snd (ief ! j) refname))"
  by (rule ief_Filter_iff)

text \<open>The theorem at concrete inputs.\<close>

theorem last_matching_rule_wins_witness:
  "ief_Filter [(Include, PrefixFilter ''refs/heads''), (Exclude, PrefixFilter ''refs/heads/archive'')]
     ''refs/heads/main''
   \<and> \<not> ief_Filter [(Include, PrefixFilter ''refs/heads''), (Exclude, PrefixFilter ''refs/heads/archive'')]
     ''refs/heads/archive/old''
   \<and> \<not> ief_Filter [(Include, PrefixFilter ''refs/heads''), (Exclude, PrefixFilter ''refs/heads/archive'')]
     ''refs/tags/v1''"
proof -
  let ?R = "[(Include, PrefixFilter ''refs/heads''), (Exclude, PrefixFilter ''refs/heads/archive'')]"
  have len: "length ?R = 2" by simp
  have m: "PrefixFilter ''refs/heads'' ''refs/heads/main''"
          "\<not> PrefixFilter ''refs/heads/archive'' ''refs/heads/main''"
          "PrefixFilter ''refs/heads/archive'' ''refs/heads/archive/old''"
          "\<not> PrefixFilter ''refs/heads'' ''refs/tags/v1''"
          "\<not> PrefixFilter ''refs/heads/archive'' ''refs/tags/v1''"
    by (simp_all add: PrefixFilter_def)
  have a: "\<exists>i < length ?R. snd (?R ! i) ''refs/heads/main'' \<and> fst (?R ! i) = Include \<and>
        (\<forall>j. i < j \<and> j < length ?R \<longrightarrow> \<not> snd (?R ! j) ''refs/heads/main'')"
  proof (intro exI[of _ 0] conjI allI impI)
    fix j :: nat assume "0 < j \<and> j < length ?R"
    then have "j = 1" by simp
    with m(2) show "\<not> snd (?R ! j) ''refs/heads/main''" by simp
  qed (simp_all add: m)
  have b: "\<not> (\<exists>i < length ?R. snd (?R ! i) ''refs/heads/archive/old'' \<and> fst (?R ! i) = Include \<and>
        (\<forall>j. i < j \<and> j < length ?R \<longrightarrow> \<not> snd (?R ! j) ''refs/heads/archive/old''))"
  proof
    assume "\<exists>i < length ?R. snd (?R ! i) ''refs/heads/archive/old'' \<and> fst (?R ! i) = Include \<and>
        (\<forall>j. i < j \<and> j < length ?R \<longrightarrow> \<not> snd (?R ! j) ''refs/heads/archive/old'')"
    then obtain i where i: "i < length ?R" "fst (?R ! i) = Include"
       "\<forall>j. i < j \<and> j < length ?R \<longrightarrow> \<not> snd (?R ! j) ''refs/heads/archive/old''" by blast
    from i(1) have "i = 0 \<or> i = 1" by (simp add: less_Suc_eq)
    with i(2) have "i = 0" by auto
    with i(3) have "0 < (1::nat) \<and> 1 < length ?R \<longrightarrow> \<not> snd (?R ! 1) ''refs/heads/archive/old''"
      by blast
    then have "\<not> snd (?R ! 1) ''refs/heads/archive/old''" by simp
    with m(3) show False by simp
  qed
  have c: "\<not> (\<exists>i < length ?R. snd (?R ! i) ''refs/tags/v1'' \<and> fst (?R ! i) = Include \<and>
        (\<forall>j. i < j \<and> j < length ?R \<longrightarrow> \<not> snd (?R ! j) ''refs/tags/v1''))"
  proof
    assume "\<exists>i < length ?R. snd (?R ! i) ''refs/tags/v1'' \<and> fst (?R ! i) = Include \<and>
        (\<forall>j. i < j \<and> j < length ?R \<longrightarrow> \<not> snd (?R ! j) ''refs/tags/v1'')"
    then obtain i where i: "i < length ?R" "snd (?R ! i) ''refs/tags/v1''" by blast
    from i(1) have "i = 0 \<or> i = 1" by (simp add: less_Suc_eq)
    with i(2) m(4,5) show False by auto
  qed
  from a b c show ?thesis
    unfolding last_matching_rule_wins[of ?R "''refs/heads/main''"]
      last_matching_rule_wins[of ?R "''refs/heads/archive/old''"]
      last_matching_rule_wins[of ?R "''refs/tags/v1''"]
    by blast
qed

text \<open>
  Claim C2, amended. The version of the JSON schema is checked only when JSON output is
  requested. For every argument list that parses, with \<^verbatim>\<open>--json\<close> in force and a
  \<^verbatim>\<open>--json-version\<close> that is neither 1 nor 2, \<^verbatim>\<open>mainImplementation\<close> returns "JSON version
  must be 1 or 2" with no event at all: no repository is opened and no scan is started.
  Without \<^verbatim>\<open>--json\<close> the run does not depend on the version.
\<close>

theorem json_version_checked_when_json_requested:
  "(Parse w arguments (initial_flagvars w) = Inr st \<and> jsonOutput st
      \<and> jsonVersion st \<noteq> 1 \<and> jsonVersion st \<noteq> 2
    \<longrightarrow> mainImplementation w arguments = ([], Some JSONVersionError))
   \<and> (\<not> jsonOutput st \<longrightarrow>
        mainImplementation_run w (st\<lparr>jsonVersion := n\<rparr>) = mainImplementation_run w st)"
  by (simp add: mainImplementation_def run_json_version run_ignores_json_version)

text \<open>The theorem at concrete inputs.\<close>

theorem json_version_checked_when_json_requested_witness:
  "mainImplementation example_world [Opt ''json'' ''true'', Opt ''json-version'' ''3'']
     = ([], Some JSONVersionError)"
proof -
  let ?st = "(initial_flagvars example_world)\<lparr>jsonOutput := True, jsonVersion := 3\<rparr>"
  have "Parse example_world [Opt ''json'' ''true'', Opt ''json-version'' ''3'']
          (initial_flagvars example_world) = Inr ?st
        \<and> jsonOutput ?st \<and> jsonVersion ?st \<noteq> 1 \<and> jsonVersion ?st \<noteq> 2"
    by (simp del: Parse.simps add: Parse_json_3)
  with json_version_checked_when_json_requested[of example_world
          "[Opt ''json'' ''true'', Opt ''json-version'' ''3'']" ?st]
  show ?thesis by blast
qed

text \<open>
  The claim as stated (every argument list with a \<^verbatim>\<open>--json-version\<close> other than 1 and 2
  is refused before the scan) fails: \<^verbatim>\<open>--json-version=3\<close> alone parses to the version 3,
  and the run opens the repository, scans it, prints the table and returns no error.
\<close>

theorem json_version_3_without_json_is_scanned:
  "Parse example_world [Opt ''json-version'' ''3''] (initial_flagvars example_world)
     = Inr ((initial_flagvars example_world)\<lparr>jsonVersion := 3\<rparr>)
   \<and> mainImplementation example_world [Opt ''json-version'' ''3'']
     = ([NewRepositoryCall ''.'', ScanRepositoryCall, WriteString Stdout ''table'',
         RepositoryClose], None)"
proof -
  have "mainImplementation example_world [Opt ''json-version'' ''3'']
     = ([NewRepositoryCall ''.'', ScanRepositoryCall, WriteString Stdout ''table'',
         RepositoryClose], None)"
    unfolding mainImplementation_def Parse_json_version_3
    by (simp add: initial_flagvars_example mainImplementation_run_def mainImplementation_open_def
        NewRepository_example mainImplementation_scan_def mainImplementation_output_def
        quietFilter_def example_world_fields ief_Filter_Nil)
  with Parse_json_version_3 show ?thesis by simp
qed

text \<open>
  Claim C3. A prefix rule with pattern \<open>pfx\<close> matches exactly the names equal to \<open>pfx\<close>
  or continuing \<open>pfx\<close> at a boundary between segments: with a slash, or with anything
  when \<open>pfx\<close> itself ends with a slash. \<^verbatim>\<open>filterValue.Set\<close> of a prefix option adds that rule
  with the polarity of the option; and with the rules include \<^verbatim>\<open>refs/heads\<close>, exclude
  \<^verbatim>\<open>refs/heads/archive\<close>, the name \<^verbatim>\<open>refs/heads/main\<close> is included while
  \<^verbatim>\<open>refs/heads/archive/old\<close> and \<^verbatim>\<open>refs/headsbranch\<close> are excluded.
\<close>

theorem prefix_rule_segment_boundary:
  "(PrefixFilter pfx refname \<longleftrightarrow>
      refname = pfx \<or> (\<exists>rest. refname = pfx @ ''/'' @ rest)
      \<or> (\<exists>stem rest. pfx = stem @ ''/'' \<and> refname = pfx @ rest))
   \<and> filterValue_Set w \<lparr>polarity = pol, pattern = [], regexp = False\<rparr> flt pfx
       = Inr (flt @ [(pol, PrefixFilter pfx)])
   \<and> (case Parse w [Opt ''include'' ''refs/heads'', Opt ''exclude'' ''refs/heads/archive'']
              (initial_flagvars w) of
        Inl err \<Rightarrow> False
      | Inr st \<Rightarrow>
          ief_Filter (filter_v st) ''refs/heads/main''
          \<and> \<not> ief_Filter (filter_v st) ''refs/heads/archive/old''
          \<and> \<not> ief_Filter (filter_v st) ''refs/headsbranch'')"
proof -
  have a: "PrefixFilter pfx refname \<longleftrightarrow>
      refname = pfx \<or> (\<exists>rest. refname = pfx @ ''/'' @ rest)
      \<or> (\<exists>stem rest. pfx = stem @ ''/'' \<and> refname = pfx @ rest)"
    by (rule PrefixFilter_iff)
  have p: "Parse w [Opt ''include'' ''refs/heads'', Opt ''exclude'' ''refs/heads/archive''] (initial_flagvars w)
         = Inr ((initial_flagvars w)\<lparr>filter_v := [(Include, PrefixFilter ''refs/heads''), (Exclude, PrefixFilter ''refs/heads/archive'')]\<rparr>)"
    by (simp add: flag_table_def flag_Set_def filterValue_Set_user_prefix initial_flagvars_def)
  show ?thesis
    by (simp only: a p filterValue_Set_user_prefix) (simp add: boundary_example_main boundary_example_archive boundary_example_headsbranch)
qed

text \<open>The theorem at concrete inputs.\<close>

theorem prefix_rule_segment_boundary_witness:
  "PrefixFilter ''refs/foo'' ''refs/foo'' \<and> PrefixFilter ''refs/foo'' ''refs/foo/bar''
   \<and> \<not> PrefixFilter ''refs/foo'' ''refs/foobar''"
proof -
  have "PrefixFilter ''refs/foo'' ''refs/foo''"
    using prefix_rule_segment_boundary[THEN conjunct1, of "''refs/foo''" "''refs/foo''"] by simp
  moreover have "PrefixFilter ''refs/foo'' ''refs/foo/bar''"
    using prefix_rule_segment_boundary[THEN conjunct1, of "''refs/foo''" "''refs/foo/bar''"] by simp
  moreover have "\<not> PrefixFilter ''refs/foo'' ''refs/foobar''"
    using prefix_rule_segment_boundary[THEN conjunct1, of "''refs/foo''" "''refs/foobar''"] by simp
  ultimately show ?thesis by simp
qed

text \<open>
  Claim C4. For every string \<open>s\<close> that does not compile as a regular expression,
  \<^verbatim>\<open>filterValue.Set\<close> of a regexp option returns the error "invalid regexp" for \<open>s\<close> and
  no filter; \<^verbatim>\<open>--include-regexp\<close> and \<^verbatim>\<open>--exclude-regexp\<close> with \<open>s\<close> stop the parse with
  that error, and a run whose earlier arguments parse returns it with no event: nothing
  is opened, scanned or printed.
\<close>

theorem invalid_regexp_fails_at_parsing:
  "regexp_Compile w s = None \<longrightarrow>
     filterValue_Set w \<lparr>polarity = pol, pattern = [], regexp = True\<rparr> flt s = Inl (InvalidRegexp s)
     \<and> (\<forall>name \<in> set [''include-regexp'', ''exclude-regexp''].
          Parse w (Opt name s # rest) st = Inl (InvalidArgument s name (InvalidRegexp s))
          \<and> (Parse w before (initial_flagvars w) = Inr st \<longrightarrow>
               mainImplementation w (before @ Opt name s # rest)
                 = ([], Some (InvalidArgument s name (InvalidRegexp s)))))"
proof
  assume c: "regexp_Compile w s = None"
  have set: "\<And>pol. filterValue_Set w \<lparr>polarity = pol, pattern = [], regexp = True\<rparr> flt' s = Inl (InvalidRegexp s)" for flt'
    using c by (simp add: filterValue_Set_def RegexpFilter_def)
  have l: "map_of flag_table ''include-regexp'' = Some (FilterValue \<lparr>polarity = Include, pattern = [], regexp = True\<rparr>)"
          "map_of flag_table ''exclude-regexp'' = Some (FilterValue \<lparr>polarity = Exclude, pattern = [], regexp = True\<rparr>)"
    by (simp_all add: flag_table_def)
  have p: "Parse w (Opt name s # rest) st = Inl (InvalidArgument s name (InvalidRegexp s))"
    if "name = ''include-regexp'' \<or> name = ''exclude-regexp''" for name
    using that l by (auto simp del: Parse.simps(3) simp add: Parse_FilterValue set)
  have m: "mainImplementation w (before @ Opt name s # rest)
                 = ([], Some (InvalidArgument s name (InvalidRegexp s)))"
    if "name = ''include-regexp'' \<or> name = ''exclude-regexp''"
       "Parse w before (initial_flagvars w) = Inr st" for name
    using that(2) p[OF that(1)]
    by (simp del: Parse.simps(3) add: mainImplementation_def Parse_append)
  from set p m
  show "filterValue_Set w \<lparr>polarity = pol, pattern = [], regexp = True\<rparr> flt s = Inl (InvalidRegexp s)
     \<and> (\<forall>name \<in> set [''include-regexp'', ''exclude-regexp''].
          Parse w (Opt name s # rest) st = Inl (InvalidArgument s name (InvalidRegexp s))
          \<and> (Parse w before (initial_flagvars w) = Inr st \<longrightarrow>
               mainImplementation w (before @ Opt name s # rest)
                 = ([], Some (InvalidArgument s name (InvalidRegexp s)))))"
    by simp
qed

text \<open>The theorem at concrete inputs.\<close>

theorem invalid_regexp_fails_at_parsing_witness:
  "regexp_Compile example_world ''refs/('' = None
   \<and> mainImplementation example_world
       [Opt ''branches'' ''true'', Opt ''include-regexp'' ''refs/('', Opt ''json'' ''true'']
     = ([], Some (InvalidArgument ''refs/('' ''include-regexp'' (InvalidRegexp ''refs/('')))"
proof -
  have c: "regexp_Compile example_world ''refs/('' = None"
    by (simp add: example_world_fields)
  from invalid_regexp_fails_at_parsing[of example_world "''refs/(''" Include "[]"
         "[Opt ''json'' ''true'']"
         "(initial_flagvars example_world)\<lparr>filter_v := [(Include, PrefixFilter ''refs/heads'')]\<rparr>"
         "[Opt ''branches'' ''true'']"] c Parse_branches_example
  show ?thesis by (simp del: Parse.simps)
qed

text \<open>
  Claim C5. The threshold is a natural number, 1 unless a flag sets it; \<^verbatim>\<open>--verbose\<close> set
  to a true value stores 0 and \<^verbatim>\<open>--critical\<close> stores 30, \<^verbatim>\<open>--threshold\<close> stores the number
  it reads, and the table is rendered with the threshold of the flags. A row is emitted
  exactly when it is a row of the report whose severity is at least the threshold, and
  the threshold 0 emits every row.
\<close>

theorem threshold_flags_and_row_emission:
  "threshold (initial_flagvars w) = 1
   \<and> (ParseBool val = (True, None) \<longrightarrow>
        Parse w (Opt ''verbose'' val # rest) st = Parse w rest (st\<lparr>threshold := 0\<rparr>)
        \<and> Parse w (Opt ''critical'' val # rest) st = Parse w rest (st\<lparr>threshold := 30\<rparr>))
   \<and> (strconv_ParseUint w val = Some n \<longrightarrow>
        Parse w (Opt ''threshold'' val # rest) st = Parse w rest (st\<lparr>threshold := n\<rparr>))
   \<and> (\<not> jsonOutput st \<longrightarrow>
        mainImplementation_output w st h
          = ([WriteString Stdout (TableString w h (threshold st) (nameStyle st))], None))
   \<and> (r \<in> set (emitted_rows t severity rows) \<longleftrightarrow> r \<in> set rows \<and> t \<le> severity r)
   \<and> emitted_rows 0 severity rows = rows"
  by (simp add: initial_flagvars_def flag_table_def flag_Set_def ThresholdFlagValue_Set_def
        Threshold_Set_def mainImplementation_output_def emitted_rows_def)

text \<open>The theorem at concrete inputs.\<close>

theorem threshold_flags_and_row_emission_witness:
  "Parse example_world [Opt ''verbose'' ''true''] (initial_flagvars example_world)
     = Inr ((initial_flagvars example_world)\<lparr>threshold := 0\<rparr>)
   \<and> Parse example_world [Opt ''critical'' ''true''] (initial_flagvars example_world)
     = Inr ((initial_flagvars example_world)\<lparr>threshold := 30\<rparr>)
   \<and> Parse example_world [Opt ''threshold'' ''3''] (initial_flagvars example_world)
     = Inr ((initial_flagvars example_world)\<lparr>threshold := 3\<rparr>)"
proof -
  note t = threshold_flags_and_row_emission[where w = example_world and val = "''true''"
      and rest = "[]" and st = "initial_flagvars example_world"]
  note sw = mp[OF t[THEN conjunct2, THEN conjunct1] ParseBool_true]
  have a: "Parse example_world [Opt ''verbose'' ''true''] (initial_flagvars example_world)
     = Inr ((initial_flagvars example_world)\<lparr>threshold := 0\<rparr>)"
    by (simp only: sw[THEN conjunct1] Parse.simps(1))
  have b: "Parse example_world [Opt ''critical'' ''true''] (initial_flagvars example_world)
     = Inr ((initial_flagvars example_world)\<lparr>threshold := 30\<rparr>)"
    by (simp only: sw[THEN conjunct2] Parse.simps(1))
  have u: "strconv_ParseUint example_world ''3'' = Some 3"
    by (simp add: example_world_fields decimal_3)
  note t' = threshold_flags_and_row_emission[where w = example_world and val = "''3''" and n = 3
      and rest = "[]" and st = "initial_flagvars example_world"]
  have c: "Parse example_world [Opt ''threshold'' ''3''] (initial_flagvars example_world)
     = Inr ((initial_flagvars example_world)\<lparr>threshold := 3\<rparr>)"
    by (simp only: mp[OF t'[THEN conjunct2, THEN conjunct2, THEN conjunct1] u] Parse.simps(1))
  show ?thesis
    by (intro conjI) (rule a b c)+
qed

text \<open>
  Claim C6. For a fixed metric the severity does not decrease when the value grows; for
  a base of at least 2, a positive reference value and a positive value it is the floor
  of the logarithm, to that base, of the value over the reference value, clamped at 0;
  the value 0 has severity 0. The severity is a function of the base, the table of
  reference values, the metric and the value only.
\<close>

theorem severity_monotone_log_scale:
  "(v1 \<le> v2 \<longrightarrow> Severity base reasonable m v1 \<le> Severity base reasonable m v2)
   \<and> (2 \<le> base \<and> 0 < reasonable m \<and> 0 < v \<longrightarrow>
        Severity base reasonable m v = Severity_formula base reasonable m v)
   \<and> Severity base reasonable m 0 = 0"
proof (intro conjI impI)
  assume "v1 \<le> v2"
  then show "Severity base reasonable m v1 \<le> Severity base reasonable m v2"
    unfolding Severity_def by (rule stars_mono)
next
  assume "2 \<le> base \<and> 0 < reasonable m \<and> 0 < v"
  then show "Severity base reasonable m v = Severity_formula base reasonable m v"
    unfolding Severity_def Severity_formula_def by (intro stars_formula) simp_all
next
  show "Severity base reasonable m 0 = 0"
    unfolding Severity_def by (rule stars_zero)
qed

text \<open>The theorem at concrete inputs.\<close>

theorem severity_monotone_log_scale_witness:
  "Severity 2 (\<lambda>m. 10) () 20 \<le> Severity 2 (\<lambda>m. 10) () 85
   \<and> Severity 2 (\<lambda>m. 10) () 20 = 1 \<and> Severity 2 (\<lambda>m. 10) () 85 = 3
   \<and> Severity_formula 2 (\<lambda>m. 10) () 85 = 3"
proof -
  note t = severity_monotone_log_scale[where base = 2 and reasonable = "\<lambda>m. 10" and m = "()"
      and ?v1.0 = 20 and ?v2.0 = 85 and v = 85]
  have a: "Severity 2 (\<lambda>m. 10) () 20 \<le> Severity 2 (\<lambda>m. 10) () 85"
    using t by simp
  have b: "Severity 2 (\<lambda>m. 10) () 20 = 1" "Severity 2 (\<lambda>m. 10) () 85 = 3"
    by (simp_all add: Severity_def stars_example)
  have c: "Severity_formula 2 (\<lambda>m. 10) () 85 = 3"
    using t b by simp
  from a b c show ?thesis by simp
qed

text \<open>
  Claim C7. \<^verbatim>\<open>mainImplementation\<close> never prints an error value, and when it returns an
  error it has written nothing to the standard output. A parse error other than the
  help request, a failure to open the repository, a scan error and a failure of the JSON
  encoding are each returned as the error of the run, and a run whose scan and output
  succeed returns nil. \<^verbatim>\<open>main\<close> adds the line \<^verbatim>\<open>error: ...\<close> on the standard error and
  exits with status 1 exactly when an error was returned, and with status 0 otherwise.
\<close>

theorem errors_are_returned_and_main_presents_them:
  "(\<forall>ev \<in> set (fst (mainImplementation w arguments)). \<not> prints_error ev)
   \<and> (snd (mainImplementation w arguments) \<noteq> None \<longrightarrow>
        (\<forall>ev \<in> set (fst (mainImplementation w arguments)). \<not> writes_to Stdout ev))
   \<and> (Parse w arguments (initial_flagvars w) = Inl err \<and> err \<noteq> ErrHelp \<longrightarrow>
        mainImplementation w arguments = ([], Some err))
   \<and> (Parse w arguments (initial_flagvars w) = Inr st \<and> reaches_NewRepository w st
        \<and> NewRepository w ''.'' = (r, Some err) \<longrightarrow>
        snd (mainImplementation w arguments) = Some (CouldntOpenRepository err))
   \<and> (Parse w arguments (initial_flagvars w) = Inr st \<and> reaches_NewRepository w st
        \<and> NewRepository w ''.'' = (Some repo, None)
        \<and> snd (ScanRepositoryUsingGraph w repo (ief_Filter (filter_v st)) (nameStyle st)
                 (progress st)) = Inl err \<longrightarrow>
        snd (mainImplementation w arguments) = Some (ErrorScanningRepository err))
   \<and> (Parse w arguments (initial_flagvars w) = Inr st \<and> reaches_NewRepository w st
        \<and> NewRepository w ''.'' = (Some repo, None)
        \<and> snd (ScanRepositoryUsingGraph w repo (ief_Filter (filter_v st)) (nameStyle st)
                 (progress st)) = Inr h
        \<and> jsonOutput st
        \<and> (jsonVersion st = 1 \<and> json_MarshalIndent w h = Inl err
            \<or> jsonVersion st = 2 \<and> HistorySize_JSON w h (threshold st) (nameStyle st) = Inl err)
        \<longrightarrow> snd (mainImplementation w arguments) = Some (CouldNotConvertToJSON err))
   \<and> (Parse w arguments (initial_flagvars w) = Inr st \<and> reaches_NewRepository w st
        \<and> NewRepository w ''.'' = (Some repo, None)
        \<and> snd (ScanRepositoryUsingGraph w repo (ief_Filter (filter_v st)) (nameStyle st)
                 (progress st)) = Inr h
        \<and> (\<not> jsonOutput st
            \<or> jsonVersion st = 1 \<and> json_MarshalIndent w h = Inr j
            \<or> jsonVersion st = 2 \<and> HistorySize_JSON w h (threshold st) (nameStyle st) = Inr j)
        \<longrightarrow> snd (mainImplementation w arguments) = None)
   \<and> main w arguments =
       (case snd (mainImplementation w arguments) of
          None \<Rightarrow> (fst (mainImplementation w arguments), 0)
        | Some e \<Rightarrow>
            (fst (mainImplementation w arguments) @ [Fprintf Stderr ''error: %s\<newline>'' [E e]], 1))"
proof -
  note ev = main_events[of w arguments]
  have bad: "Parse w arguments (initial_flagvars w) = Inl err \<and> err \<noteq> ErrHelp \<longrightarrow>
        mainImplementation w arguments = ([], Some err)"
    by (simp add: mainImplementation_def)
  have m: "main w arguments =
       (case snd (mainImplementation w arguments) of
          None \<Rightarrow> (fst (mainImplementation w arguments), 0)
        | Some e \<Rightarrow>
            (fst (mainImplementation w arguments) @ [Fprintf Stderr ''error: %s\<newline>'' [E e]], 1))"
    by (simp add: main_def split: prod.splits option.splits)
  have r1: "Parse w arguments (initial_flagvars w) = Inr st \<and> reaches_NewRepository w st
        \<and> NewRepository w ''.'' = (r, Some err) \<longrightarrow>
        snd (mainImplementation w arguments) = Some (CouldntOpenRepository err)"
    by (auto simp: reached_result split: option.splits)
  have r2: "Parse w arguments (initial_flagvars w) = Inr st \<and> reaches_NewRepository w st
        \<and> NewRepository w ''.'' = (Some repo, None)
        \<and> snd (ScanRepositoryUsingGraph w repo (ief_Filter (filter_v st)) (nameStyle st)
                 (progress st)) = Inl err \<longrightarrow>
        snd (mainImplementation w arguments) = Some (ErrorScanningRepository err)"
    by (simp add: reached_result)
  have r3: "Parse w arguments (initial_flagvars w) = Inr st \<and> reaches_NewRepository w st
        \<and> NewRepository w ''.'' = (Some repo, None)
        \<and> snd (ScanRepositoryUsingGraph w repo (ief_Filter (filter_v st)) (nameStyle st)
                 (progress st)) = Inr h
        \<and> jsonOutput st
        \<and> (jsonVersion st = 1 \<and> json_MarshalIndent w h = Inl err
            \<or> jsonVersion st = 2 \<and> HistorySize_JSON w h (threshold st) (nameStyle st) = Inl err)
        \<longrightarrow> snd (mainImplementation w arguments) = Some (CouldNotConvertToJSON err)"
    by (auto simp: reached_result mainImplementation_output_def)
  have r4: "Parse w arguments (initial_flagvars w) = Inr st \<and> reaches_NewRepository w st
        \<and> NewRepository w ''.'' = (Some repo, None)
        \<and> snd (ScanRepositoryUsingGraph w repo (ief_Filter (filter_v st)) (nameStyle st)
                 (progress st)) = Inr h
        \<and> (\<not> jsonOutput st
            \<or> jsonVersion st = 1 \<and> json_MarshalIndent w h = Inr j
            \<or> jsonVersion st = 2 \<and> HistorySize_JSON w h (threshold st) (nameStyle st) = Inr j)
        \<longrightarrow> snd (mainImplementation w arguments) = None"
    by (auto simp: reached_result mainImplementation_output_def)
  from ev bad r1 r2 r3 r4 m show ?thesis by blast
qed

text \<open>The theorem at concrete inputs.\<close>

theorem errors_are_returned_and_main_presents_them_witness:
  "mainImplementation example_world [Opt ''bogus'' ''x''] = ([], Some (UnknownFlag ''bogus''))
   \<and> main example_world [Opt ''bogus'' ''x'']
       = ([Fprintf Stderr ''error: %s\<newline>'' [E (UnknownFlag ''bogus'')]], 1)
   \<and> snd (mainImplementation shallow_world []) = Some (CouldntOpenRepository ShallowClone)
   \<and> snd (main shallow_world []) = 1
   \<and> snd (mainImplementation example_world []) = None
   \<and> snd (main example_world []) = 0"
proof -
  have p1: "Parse example_world [Opt ''bogus'' ''x''] (initial_flagvars example_world)
              = Inl (UnknownFlag ''bogus'') \<and> UnknownFlag ''bogus'' \<noteq> ErrHelp"
    by (simp add: flag_table_def)
  note t1 = errors_are_returned_and_main_presents_them[where w = example_world
      and arguments = "[Opt ''bogus'' ''x'']" and err = "UnknownFlag ''bogus''"]
  have a: "mainImplementation example_world [Opt ''bogus'' ''x'']
      = ([], Some (UnknownFlag ''bogus''))"
    by (rule mp[OF t1[THEN conjunct2, THEN conjunct2, THEN conjunct1] p1])
  have b: "main example_world [Opt ''bogus'' ''x'']
       = ([Fprintf Stderr ''error: %s\<newline>'' [E (UnknownFlag ''bogus'')]], 1)"
    by (simp only: t1[THEN conjunct2, THEN conjunct2, THEN conjunct2, THEN conjunct2,
          THEN conjunct2, THEN conjunct2, THEN conjunct2] a snd_conv fst_conv option.case append_Nil)
  have p2: "Parse shallow_world [] (initial_flagvars shallow_world) = Inr (initial_flagvars shallow_world)
      \<and> reaches_NewRepository shallow_world (initial_flagvars shallow_world)
      \<and> NewRepository shallow_world ''.'' = (None, Some ShallowClone)"
    by (simp add: reaches_NewRepository_def initial_flagvars_def NewRepository_shallow)
  note t2 = errors_are_returned_and_main_presents_them[where w = shallow_world
      and arguments = "[]" and st = "initial_flagvars shallow_world" and r = None
      and err = ShallowClone]
  have c: "snd (mainImplementation shallow_world []) = Some (CouldntOpenRepository ShallowClone)"
    by (rule mp[OF t2[THEN conjunct2, THEN conjunct2, THEN conjunct2, THEN conjunct1] p2])
  have d: "snd (main shallow_world []) = 1"
    by (simp only: t2[THEN conjunct2, THEN conjunct2, THEN conjunct2, THEN conjunct2,
          THEN conjunct2, THEN conjunct2, THEN conjunct2] c snd_conv option.case)
  have p3: "Parse example_world [] (initial_flagvars example_world) = Inr (initial_flagvars example_world)
      \<and> reaches_NewRepository example_world (initial_flagvars example_world)
      \<and> NewRepository example_world ''.'' = (Some \<lparr>path = ''.git'', gitBin = ''/usr/bin/git''\<rparr>, None)
      \<and> snd (ScanRepositoryUsingGraph example_world \<lparr>path = ''.git'', gitBin = ''/usr/bin/git''\<rparr>
               (ief_Filter (filter_v (initial_flagvars example_world)))
               (nameStyle (initial_flagvars example_world))
               (progress (initial_flagvars example_world))) = Inr 0
      \<and> (\<not> jsonOutput (initial_flagvars example_world)
          \<or> jsonVersion (initial_flagvars example_world) = 1
              \<and> json_MarshalIndent example_world 0 = Inr []
          \<or> jsonVersion (initial_flagvars example_world) = 2
              \<and> HistorySize_JSON example_world 0 (threshold (initial_flagvars example_world))
                   (nameStyle (initial_flagvars example_world)) = Inr [])"
    by (simp add: reaches_NewRepository_def initial_flagvars_example NewRepository_example
          example_world_fields ief_Filter_Nil)
  note t3 = errors_are_returned_and_main_presents_them[where w = example_world
      and arguments = "[]" and st = "initial_flagvars example_world"
      and repo = "\<lparr>path = ''.git'', gitBin = ''/usr/bin/git''\<rparr>" and h = 0 and j = "[]"]
  have e: "snd (mainImplementation example_world []) = None"
    by (rule mp[OF t3[THEN conjunct2, THEN conjunct2, THEN conjunct2, THEN conjunct2,
          THEN conjunct2, THEN conjunct2, THEN conjunct1] p3])
  have f: "snd (main example_world []) = 0"
    by (simp only: t3[THEN conjunct2, THEN conjunct2, THEN conjunct2, THEN conjunct2,
          THEN conjunct2, THEN conjunct2, THEN conjunct2] e snd_conv option.case)
  show ?thesis
    by (intro conjI) (rule a b c d e f)+
qed

text \<open>
  Claim C8. For every path whose git directory contains a \<^verbatim>\<open>shallow\<close> file,
  \<^verbatim>\<open>NewRepository\<close> is to return a nil repository and the error "this appears to be a
  shallow clone; full clone required", so that no scan starts on a shallow clone. The
  code does so when the shallow check runs (lemma \<open>detected_shallow_clone_is_refused\<close>),
  and not when \<^verbatim>\<open>git rev-parse --git-path shallow\<close> fails: \<^verbatim>\<open>IsShallow\<close> then returns
  \<^verbatim>\<open>false\<close> with an error, and \<^verbatim>\<open>NewRepository\<close>, which looks at the error only after
  \<^verbatim>\<open>true\<close>, returns the repository and no error. In the environment below the git
  directory holds a \<^verbatim>\<open>shallow\<close> file and its name ends with a space; \<^verbatim>\<open>GitDir\<close> trims the
  space, the shallow check cannot run in the trimmed directory, \<^verbatim>\<open>NewRepository\<close>
  returns a repository, and \<^verbatim>\<open>mainImplementation\<close> scans and returns nil.
\<close>

theorem shallow_clone_scanned_when_check_fails:
  "os_Lstat trailing_space_world ''/srv/repo.git /shallow'' = None
   \<and> GitDir trailing_space_world ''/usr/bin/git'' ''.'' = Inr ''/srv/repo.git''
   \<and> IsShallow trailing_space_world ''/usr/bin/git'' ''/srv/repo.git''
       = (False, Some (CouldNotRunGitPathShallow
                         (ExternalError ''chdir: no such file or directory'')))
   \<and> NewRepository trailing_space_world ''.''
       = (Some \<lparr>path = ''/srv/repo.git'', gitBin = ''/usr/bin/git''\<rparr>, None)
   \<and> mainImplementation trailing_space_world []
       = ([NewRepositoryCall ''.'', ScanRepositoryCall, WriteString Stdout ''table'',
           RepositoryClose], None)"
proof -
  have f: "findGitBin trailing_space_world = Inr ''/usr/bin/git''"
    "exec_git_dir trailing_space_world gitbin pth = Inr ''/srv/repo.git \<newline>''"
    "exec_git_path_shallow trailing_space_world gitbin ''/srv/repo.git''
       = Inl (ExternalError ''chdir: no such file or directory'')"
    "os_Lstat trailing_space_world ''/srv/repo.git /shallow'' = None"
    "Isatty trailing_space_world = Inr False"
    "ScanRepositoryUsingGraph trailing_space_world repo refFilter names prog =
       ([''refs/heads/main'', ''refs/tags/v1''],
        Inr (length (filter refFilter [''refs/heads/main'', ''refs/tags/v1''])))"
    "TableString trailing_space_world h t names = ''table''"
    for gitbin pth repo refFilter names prog h t
    by (simp_all add: trailing_space_world_def example_world_def)
  have g: "GitDir trailing_space_world ''/usr/bin/git'' ''.'' = Inr ''/srv/repo.git''"
    by (simp add: GitDir_def f smartJoin_def filepath_IsAbs_def TrimSpace_ex)
  have i: "IsShallow trailing_space_world ''/usr/bin/git'' ''/srv/repo.git''
       = (False, Some (CouldNotRunGitPathShallow
                         (ExternalError ''chdir: no such file or directory'')))"
    by (simp add: IsShallow_def f)
  have n: "NewRepository trailing_space_world ''.''
       = (Some \<lparr>path = ''/srv/repo.git'', gitBin = ''/usr/bin/git''\<rparr>, None)"
    by (simp add: NewRepository_def f g i)
  have st: "initial_flagvars trailing_space_world =
      \<lparr>nameStyle = NameStyleFull, cpuprofile = [], jsonOutput = False, jsonVersion = 1,
       threshold = 1, progress = False, version = False, filter_v = [], showRefs = False,
       args = []\<rparr>"
    by (simp add: initial_flagvars_def f)
  have m: "mainImplementation trailing_space_world []
       = ([NewRepositoryCall ''.'', ScanRepositoryCall, WriteString Stdout ''table'',
           RepositoryClose], None)"
    by (simp add: mainImplementation_def st run_unfold open_unfold n scan_unfold
          mainImplementation_output_def f ief_Filter_Nil)
  show ?thesis
    by (intro conjI) (rule f(4) g i n m)+
qed

text \<open>
  Claim C9. The filter that \<^verbatim>\<open>--show-refs\<close> installs answers as the filter it wraps, so
  the scanner is given the same predicate; with the flag on, the run returns the same
  error or nil, and its events other than the writes to the standard error are the
  events of the run with the flag off. \<^verbatim>\<open>--show-refs\<close> sets nothing but that flag.
\<close>

theorem show_refs_only_prints:
  "fst (showRefsFilter f refname) = f refname
   \<and> (\<lambda>refname. fst (showRefsFilter f refname)) = f
   \<and> snd (mainImplementation_run w (st\<lparr>showRefs := True\<rparr>))
       = snd (mainImplementation_run w (st\<lparr>showRefs := False\<rparr>))
   \<and> filter (\<lambda>ev. \<not> writes_to Stderr ev) (fst (mainImplementation_run w (st\<lparr>showRefs := True\<rparr>)))
       = fst (mainImplementation_run w (st\<lparr>showRefs := False\<rparr>))
   \<and> (Parse w arguments st0 = Inr st \<longrightarrow>
        Parse w (arguments @ [Opt ''show-refs'' ''true'']) st0 = Inr (st\<lparr>showRefs := True\<rparr>))"
  using run_showRefs[of w st] Parse_show_refs[of w arguments st0 st]
  by (simp add: fst_filters) (simp add: showRefsFilter_def Let_def)

text \<open>The theorem at concrete inputs.\<close>

theorem show_refs_only_prints_witness:
  "Parse example_world [Opt ''branches'' ''true'', Opt ''show-refs'' ''true'']
       (initial_flagvars example_world)
     = Inr ((initial_flagvars example_world)\<lparr>filter_v := [(Include, PrefixFilter ''refs/heads'')],
          showRefs := True\<rparr>)
   \<and> snd (mainImplementation_run example_world
        ((initial_flagvars example_world)\<lparr>filter_v := [(Include, PrefixFilter ''refs/heads'')],
          showRefs := True\<rparr>)) = None
   \<and> filter (\<lambda>ev. \<not> writes_to Stderr ev)
        (fst (mainImplementation_run example_world
          ((initial_flagvars example_world)\<lparr>filter_v := [(Include, PrefixFilter ''refs/heads'')],
            showRefs := True\<rparr>)))
      = [NewRepositoryCall ''.'', ScanRepositoryCall, WriteString Stdout ''table'', RepositoryClose]
   \<and> fst (mainImplementation_run example_world
          ((initial_flagvars example_world)\<lparr>filter_v := [(Include, PrefixFilter ''refs/heads'')],
            showRefs := True\<rparr>))
      = [NewRepositoryCall ''.'',
         Fprintf Stderr ''References (included references marked with '+'):\<newline>'' [],
         ScanRepositoryCall,
         Fprintf Stderr ''+ %s\<newline>'' [S ''refs/heads/main''],
         Fprintf Stderr ''  %s\<newline>'' [S ''refs/tags/v1''],
         WriteString Stdout ''table'', RepositoryClose]"
proof -
  let ?st = "(initial_flagvars example_world)\<lparr>filter_v := [(Include, PrefixFilter ''refs/heads'')]\<rparr>"
  note t = show_refs_only_prints[of _ _ example_world ?st "[Opt ''branches'' ''true'']"
      "initial_flagvars example_world"]
  have p: "Parse example_world ([Opt ''branches'' ''true''] @ [Opt ''show-refs'' ''true''])
       (initial_flagvars example_world) = Inr (?st\<lparr>showRefs := True\<rparr>)"
    using t Parse_branches_example by blast
  have r: "snd (mainImplementation_run example_world (?st\<lparr>showRefs := True\<rparr>))
       = snd (mainImplementation_run example_world (?st\<lparr>showRefs := False\<rparr>))"
    using t by blast
  have e: "filter (\<lambda>ev. \<not> writes_to Stderr ev) (fst (mainImplementation_run example_world (?st\<lparr>showRefs := True\<rparr>)))
       = fst (mainImplementation_run example_world (?st\<lparr>showRefs := False\<rparr>))"
    using t by blast
  from p r e show ?thesis
    by (simp del: Parse.simps add: example_branches_run example_branches_run_shown)
qed

text \<open>
  Claim C10. For an option with a fixed pattern, \<^verbatim>\<open>filterValue.Set\<close> reads its argument
  as a boolean: a true value adds the rule with the declared polarity, a false value
  adds it with the inverted polarity, and an argument that is no boolean is an error and
  adds nothing. For each of \<^verbatim>\<open>--branches\<close>, \<^verbatim>\<open>--tags\<close>, \<^verbatim>\<open>--remotes\<close>, \<^verbatim>\<open>--notes\<close>,
  \<^verbatim>\<open>--stash\<close>, the option set to false parses as its \<^verbatim>\<open>--no-\<close> twin set to true (for
  \<^verbatim>\<open>--stash\<close>, whose pattern is a regular expression, when that pattern compiles);
  \<^verbatim>\<open>--branches=false\<close> is an exclude rule for \<^verbatim>\<open>refs/heads\<close>.
\<close>

theorem fixed_pattern_switch:
  "(pattern v \<noteq> [] \<longrightarrow>
      filterValue_Set w v flt s =
        (case ParseBool s of
           (b, Some err) \<Rightarrow> Inl (ParseBoolSyntax s)
         | (b, None) \<Rightarrow>
             (case (if regexp v then regexp_Compile w (pattern v)
                    else Some (PrefixFilter (pattern v))) of
                None \<Rightarrow> Inl (InvalidRegexp s)
              | Some f \<Rightarrow>
                  Inr (flt @ [(if b then polarity v else Inverted (polarity v), f)]))))
   \<and> Inverted Include = Exclude \<and> Inverted Exclude = Include
   \<and> (\<forall>name \<in> set [''branches'', ''tags'', ''remotes'', ''notes'', ''stash''].
        \<exists>v. map_of flag_table name = Some (FilterValue v) \<and> pattern v \<noteq> []
              \<and> polarity v = Include
              \<and> map_of flag_table (''no-'' @ name)
                  = Some (FilterValue (v\<lparr>polarity := Exclude\<rparr>))
              \<and> ((regexp v \<longrightarrow> regexp_Compile w (pattern v) \<noteq> None) \<longrightarrow>
                   Parse w (Opt name ''false'' # rest) st
                     = Parse w (Opt (''no-'' @ name) ''true'' # rest) st
                   \<and> Parse w (Opt (''no-'' @ name) ''false'' # rest) st
                     = Parse w (Opt name ''true'' # rest) st))
   \<and> Parse w (Opt ''branches'' ''false'' # rest) st
       = Parse w rest (st\<lparr>filter_v := filter_v st @ [(Exclude, PrefixFilter ''refs/heads'')]\<rparr>)"
proof -
  have a: "pattern v \<noteq> [] \<longrightarrow>
      filterValue_Set w v flt s =
        (case ParseBool s of
           (b, Some err) \<Rightarrow> Inl (ParseBoolSyntax s)
         | (b, None) \<Rightarrow>
             (case (if regexp v then regexp_Compile w (pattern v)
                    else Some (PrefixFilter (pattern v))) of
                None \<Rightarrow> Inl (InvalidRegexp s)
              | Some f \<Rightarrow>
                  Inr (flt @ [(if b then polarity v else Inverted (polarity v), f)])))"
  proof
    assume "pattern v \<noteq> []"
    then have "filterValue_Set w v flt s =
     (case ParseBool s of
        (b, Some err) \<Rightarrow> Inl err
      | (b, None) \<Rightarrow>
          (case (if regexp v then regexp_Compile w (pattern v) else Some (PrefixFilter (pattern v))) of
             None \<Rightarrow> Inl (InvalidRegexp s)
           | Some f \<Rightarrow> Inr (flt @ [(if b then polarity v else Inverted (polarity v), f)])))"
      by (rule filterValue_Set_fixed)
    moreover have "snd (ParseBool s) \<noteq> None \<Longrightarrow> ParseBool s = (False, Some (ParseBoolSyntax s))"
      by (rule ParseBool_error)
    ultimately show "filterValue_Set w v flt s =
        (case ParseBool s of
           (b, Some err) \<Rightarrow> Inl (ParseBoolSyntax s)
         | (b, None) \<Rightarrow>
             (case (if regexp v then regexp_Compile w (pattern v)
                    else Some (PrefixFilter (pattern v))) of
                None \<Rightarrow> Inl (InvalidRegexp s)
              | Some f \<Rightarrow>
                  Inr (flt @ [(if b then polarity v else Inverted (polarity v), f)])))"
      by (cases "ParseBool s") (auto split: option.splits)
  qed
  have f1: "\<exists>v. map_of flag_table ''branches'' = Some (FilterValue v) \<and> pattern v \<noteq> []
              \<and> polarity v = Include
              \<and> map_of flag_table (''no-'' @ ''branches'')
                  = Some (FilterValue (v\<lparr>polarity := Exclude\<rparr>))
              \<and> ((regexp v \<longrightarrow> regexp_Compile w (pattern v) \<noteq> None) \<longrightarrow>
                   Parse w (Opt ''branches'' ''false'' # rest) st
                     = Parse w (Opt (''no-'' @ ''branches'') ''true'' # rest) st
                   \<and> Parse w (Opt (''no-'' @ ''branches'') ''false'' # rest) st
                     = Parse w (Opt ''branches'' ''true'' # rest) st)"
    by (rule switch_family[where v = "\<lparr>polarity = Include, pattern = ''refs/heads'', regexp = False\<rparr>"])
       (simp_all add: flag_table_switches)
  have f2: "\<exists>v. map_of flag_table ''tags'' = Some (FilterValue v) \<and> pattern v \<noteq> []
              \<and> polarity v = Include
              \<and> map_of flag_table (''no-'' @ ''tags'')
                  = Some (FilterValue (v\<lparr>polarity := Exclude\<rparr>))
              \<and> ((regexp v \<longrightarrow> regexp_Compile w (pattern v) \<noteq> None) \<longrightarrow>
                   Parse w (Opt ''tags'' ''false'' # rest) st
                     = Parse w (Opt (''no-'' @ ''tags'') ''true'' # rest) st
                   \<and> Parse w (Opt (''no-'' @ ''tags'') ''false'' # rest) st
                     = Parse w (Opt ''tags'' ''true'' # rest) st)"
    by (rule switch_family[where v = "\<lparr>polarity = Include, pattern = ''refs/tags'', regexp = False\<rparr>"])
       (simp_all add: flag_table_switches)
  have f3: "\<exists>v. map_of flag_table ''remotes'' = Some (FilterValue v) \<and> pattern v \<noteq> []
              \<and> polarity v = Include
              \<and> map_of flag_table (''no-'' @ ''remotes'')
                  = Some (FilterValue (v\<lparr>polarity := Exclude\<rparr>))
              \<and> ((regexp v \<longrightarrow> regexp_Compile w (pattern v) \<noteq> None) \<longrightarrow>
                   Parse w (Opt ''remotes'' ''false'' # rest) st
                     = Parse w (Opt (''no-'' @ ''remotes'') ''true'' # rest) st
                   \<and> Parse w (Opt (''no-'' @ ''remotes'') ''false'' # rest) st
                     = Parse w (Opt ''remotes'' ''true'' # rest) st)"
    by (rule switch_family[where v = "\<lparr>polarity = Include, pattern = ''refs/remotes'', regexp = False\<rparr>"])
       (simp_all add: flag_table_switches)
  have f4: "\<exists>v. map_of flag_table ''notes'' = Some (FilterValue v) \<and> pattern v \<noteq> []
              \<and> polarity v = Include
              \<and> map_of flag_table (''no-'' @ ''notes'')
                  = Some (FilterValue (v\<lparr>polarity := Exclude\<rparr>))
              \<and> ((regexp v \<longrightarrow> regexp_Compile w (pattern v) \<noteq> None) \<longrightarrow>
                   Parse w (Opt ''notes'' ''false'' # rest) st
                     = Parse w (Opt (''no-'' @ ''notes'') ''true'' # rest) st
                   \<and> Parse w (Opt (''no-'' @ ''notes'') ''false'' # rest) st
                     = Parse w (Opt ''notes'' ''true'' # rest) st)"
    by (rule switch_family[where v = "\<lparr>polarity = Include, pattern = ''refs/notes'', regexp = False\<rparr>"])
       (simp_all add: flag_table_switches)
  have f5: "\<exists>v. map_of flag_table ''stash'' = Some (FilterValue v) \<and> pattern v \<noteq> []
              \<and> polarity v = Include
              \<and> map_of flag_table (''no-'' @ ''stash'')
                  = Some (FilterValue (v\<lparr>polarity := Exclude\<rparr>))
              \<and> ((regexp v \<longrightarrow> regexp_Compile w (pattern v) \<noteq> None) \<longrightarrow>
                   Parse w (Opt ''stash'' ''false'' # rest) st
                     = Parse w (Opt (''no-'' @ ''stash'') ''true'' # rest) st
                   \<and> Parse w (Opt (''no-'' @ ''stash'') ''false'' # rest) st
                     = Parse w (Opt ''stash'' ''true'' # rest) st)"
    by (rule switch_family[where v = "\<lparr>polarity = Include, pattern = ''refs/stash'', regexp = True\<rparr>"])
       (simp_all add: flag_table_switches)
  have g: "Parse w (Opt ''branches'' ''false'' # rest) st
       = Parse w rest (st\<lparr>filter_v := filter_v st @ [(Exclude, PrefixFilter ''refs/heads'')]\<rparr>)"
    by (simp del: Parse.simps(3) add: Parse_FilterValue[OF flag_table_switches(1)] filterValue_Set_fixed
          ParseBool_false Inverted_simps)
  from f1 f2 f3 f4 f5
  have all: "\<forall>name \<in> set [''branches'', ''tags'', ''remotes'', ''notes'', ''stash''].
        \<exists>v. map_of flag_table name = Some (FilterValue v) \<and> pattern v \<noteq> []
              \<and> polarity v = Include
              \<and> map_of flag_table (''no-'' @ name)
                  = Some (FilterValue (v\<lparr>polarity := Exclude\<rparr>))
              \<and> ((regexp v \<longrightarrow> regexp_Compile w (pattern v) \<noteq> None) \<longrightarrow>
                   Parse w (Opt name ''false'' # rest) st
                     = Parse w (Opt (''no-'' @ name) ''true'' # rest) st
                   \<and> Parse w (Opt (''no-'' @ name) ''false'' # rest) st
                     = Parse w (Opt name ''true'' # rest) st)"
    unfolding list.set ball_simps by blast
  from a all g show ?thesis by (simp only: Inverted_simps)
qed

text \<open>The theorem at concrete inputs.\<close>

theorem fixed_pattern_switch_witness:
  "filterValue_Set example_world \<lparr>polarity = Include, pattern = ''refs/heads'', regexp = False\<rparr> [] ''false''
     = Inr [(Exclude, PrefixFilter ''refs/heads'')]
   \<and> filterValue_Set example_world \<lparr>polarity = Include, pattern = ''refs/heads'', regexp = False\<rparr> [] ''true''
     = Inr [(Include, PrefixFilter ''refs/heads'')]
   \<and> filterValue_Set example_world \<lparr>polarity = Include, pattern = ''refs/heads'', regexp = False\<rparr> [] ''maybe''
     = Inl (ParseBoolSyntax ''maybe'')"
  using fixed_pattern_switch[of "\<lparr>polarity = Include, pattern = ''refs/heads'', regexp = False\<rparr>"
          example_world "[]" "''false''"]
        fixed_pattern_switch[of "\<lparr>polarity = Include, pattern = ''refs/heads'', regexp = False\<rparr>"
          example_world "[]" "''true''"]
        fixed_pattern_switch[of "\<lparr>polarity = Include, pattern = ''refs/heads'', regexp = False\<rparr>"
          example_world "[]" "''maybe''"]
  by (simp add: ParseBool_def)

end
